theory Spec2Isabelle
  imports Complex_Main "HOL-Library.Sublist"
begin

section \<open>JavaScript numbers\<close>

text \<open>
  A JavaScript \<^verbatim>\<open>number\<close> is \<^verbatim>\<open>NaN\<close>, one of the two infinities, or a finite value.
  Finite doubles are idealised as reals: rounding, overflow to infinity, underflow and
  the sign of zero are not modelled. The special values follow IEEE 754 as JavaScript
  exposes it.
\<close>

datatype number = NaN | NegInf | Fin real | PosInf

text \<open>Unary minus, \<^verbatim>\<open>x + y\<close>, \<^verbatim>\<open>x - y\<close>, \<^verbatim>\<open>x * y\<close>, \<^verbatim>\<open>x / y\<close>.\<close>

fun neg :: "number \<Rightarrow> number" where
  "neg NaN = NaN"
| "neg NegInf = PosInf"
| "neg PosInf = NegInf"
| "neg (Fin x) = Fin (- x)"

fun add :: "number \<Rightarrow> number \<Rightarrow> number" where
  "add NaN _ = NaN"
| "add _ NaN = NaN"
| "add (Fin x) (Fin y) = Fin (x + y)"
| "add PosInf NegInf = NaN"
| "add NegInf PosInf = NaN"
| "add PosInf _ = PosInf"
| "add _ PosInf = PosInf"
| "add NegInf _ = NegInf"
| "add _ NegInf = NegInf"

definition sub :: "number \<Rightarrow> number \<Rightarrow> number" where
  "sub x y = add x (neg y)"

fun mul :: "number \<Rightarrow> number \<Rightarrow> number" where
  "mul NaN _ = NaN"
| "mul _ NaN = NaN"
| "mul (Fin x) (Fin y) = Fin (x * y)"
| "mul (Fin x) PosInf = (if x = 0 then NaN else if 0 < x then PosInf else NegInf)"
| "mul (Fin x) NegInf = (if x = 0 then NaN else if 0 < x then NegInf else PosInf)"
| "mul PosInf (Fin y) = (if y = 0 then NaN else if 0 < y then PosInf else NegInf)"
| "mul NegInf (Fin y) = (if y = 0 then NaN else if 0 < y then NegInf else PosInf)"
| "mul PosInf PosInf = PosInf"
| "mul NegInf NegInf = PosInf"
| "mul PosInf NegInf = NegInf"
| "mul NegInf PosInf = NegInf"

fun divn :: "number \<Rightarrow> number \<Rightarrow> number" where
  "divn NaN _ = NaN"
| "divn _ NaN = NaN"
| "divn (Fin x) (Fin y) =
     (if y = 0 then (if x = 0 then NaN else if 0 < x then PosInf else NegInf)
      else Fin (x / y))"
| "divn (Fin x) PosInf = Fin 0"
| "divn (Fin x) NegInf = Fin 0"
| "divn PosInf (Fin y) = (if 0 \<le> y then PosInf else NegInf)"
| "divn NegInf (Fin y) = (if 0 \<le> y then NegInf else PosInf)"
| "divn PosInf PosInf = NaN"
| "divn PosInf NegInf = NaN"
| "divn NegInf PosInf = NaN"
| "divn NegInf NegInf = NaN"

text \<open>\<^verbatim>\<open>x ** 2\<close> and \<^verbatim>\<open>Math.sqrt(x)\<close>.\<close>

fun pow2 :: "number \<Rightarrow> number" where
  "pow2 NaN = NaN"
| "pow2 NegInf = PosInf"
| "pow2 PosInf = PosInf"
| "pow2 (Fin x) = Fin (x * x)"

fun sqrt_n :: "number \<Rightarrow> number" where
  "sqrt_n NaN = NaN"
| "sqrt_n NegInf = NaN"
| "sqrt_n PosInf = PosInf"
| "sqrt_n (Fin x) = (if x < 0 then NaN else Fin (sqrt x))"

text \<open>\<^verbatim>\<open>x < y\<close>: false as soon as one side is \<^verbatim>\<open>NaN\<close>.\<close>

fun lt :: "number \<Rightarrow> number \<Rightarrow> bool" where
  "lt NaN _ = False"
| "lt _ NaN = False"
| "lt (Fin x) (Fin y) = (x < y)"
| "lt NegInf NegInf = False"
| "lt NegInf _ = True"
| "lt _ NegInf = False"
| "lt PosInf _ = False"
| "lt _ PosInf = True"

definition isNaN :: "number \<Rightarrow> bool" where
  "isNaN x = (x = NaN)"

definition is_finite :: "number \<Rightarrow> bool" where
  "is_finite x = (case x of Fin _ \<Rightarrow> True | _ \<Rightarrow> False)"

section \<open>Errors\<close>

text \<open>
  What the code can throw: a \<^verbatim>\<open>TypeError\<close> from reading a property of \<^verbatim>\<open>undefined\<close>,
  and whatever the two libraries throw (\<^verbatim>\<open>d3-delaunay\<close>, \<^verbatim>\<open>ml-kmeans\<close>).
\<close>

datatype error = TypeError | DelaunayError | KMeansError

section \<open>alphaShape.ts\<close>

type_synonym point = "number \<times> number"
type_synonym edge = "nat \<times> nat"

text \<open>
  The \<^verbatim>\<open>edges\<close> map of \<^verbatim>\<open>alphaShape\<close>. Its keys are the strings \<^verbatim>\<open>`${i}-${j}`\<close> and the
  value under such a key is always \<^verbatim>\<open>[i, j]\<close>; the indices come from a \<^verbatim>\<open>Uint32Array\<close>,
  so the key determines the pair. A JavaScript \<^verbatim>\<open>Map\<close> keeps its entries in insertion
  order: the map is the list of its values in that order.
\<close>

definition addEdge :: "bool \<Rightarrow> edge list \<Rightarrow> nat \<Rightarrow> nat \<Rightarrow> edge list" where
  "addEdge onlyOuter edges i j =
     (if (i, j) \<in> set edges \<or> (j, i) \<in> set edges
      then (if onlyOuter \<and> (j, i) \<in> set edges then removeAll (j, i) edges else edges)
      else edges @ [(i, j)])"

text \<open>The side length \<^verbatim>\<open>Math.sqrt((p[0] - q[0]) ** 2 + (p[1] - q[1]) ** 2)\<close>.\<close>

definition side :: "point \<Rightarrow> point \<Rightarrow> number" where
  "side p q = sqrt_n (add (pow2 (sub (fst p) (fst q))) (pow2 (sub (snd p) (snd q))))"

text \<open>The locals \<^verbatim>\<open>area\<close> and \<^verbatim>\<open>circum_r\<close> of one triangle.\<close>

definition area :: "point \<Rightarrow> point \<Rightarrow> point \<Rightarrow> number" where
  "area pa pb pc =
     (let a = side pa pb; b = side pb pc; c = side pc pa;
          s = divn (add (add a b) c) (Fin 2)
      in sqrt_n (mul (mul (mul s (sub s a)) (sub s b)) (sub s c)))"

definition circum_r :: "point \<Rightarrow> point \<Rightarrow> point \<Rightarrow> number" where
  "circum_r pa pb pc =
     (let a = side pa pb; b = side pb pc; c = side pc pa
      in divn (mul (mul a b) c) (mul (Fin 4) (area pa pb pc)))"

text \<open>
  The loop over the flat \<^verbatim>\<open>triangles\<close> array, three indices at a time. An index with no
  point (or a missing second or third index) makes \<^verbatim>\<open>pa[0]\<close> a read on \<^verbatim>\<open>undefined\<close>: a
  \<^verbatim>\<open>TypeError\<close>.
\<close>

fun triangle_loop :: "point list \<Rightarrow> number \<Rightarrow> bool \<Rightarrow> nat list \<Rightarrow> edge list \<Rightarrow> error + edge list" where
  "triangle_loop points alpha onlyOuter [] edges = Inr edges"
| "triangle_loop points alpha onlyOuter (ia # ib # ic # rest) edges =
     (if ia < length points \<and> ib < length points \<and> ic < length points then
        (if area (points ! ia) (points ! ib) (points ! ic) = Fin 0
         then triangle_loop points alpha onlyOuter rest edges
         else if lt (circum_r (points ! ia) (points ! ib) (points ! ic)) alpha
         then triangle_loop points alpha onlyOuter rest
                (addEdge onlyOuter (addEdge onlyOuter (addEdge onlyOuter edges ia ib) ib ic) ic ia)
         else triangle_loop points alpha onlyOuter rest edges)
      else Inl TypeError)"
| "triangle_loop points alpha onlyOuter _ edges = Inl TypeError"

text \<open>
  \<^verbatim>\<open>alphaShape\<close>. The triangulation \<^verbatim>\<open>Delaunay.from(points).triangles\<close> is the library's:
  it is the parameter \<open>delaunay\<close>, which returns the flat index array or throws. The
  \<^verbatim>\<open>try\<close>/\<^verbatim>\<open>catch\<close> turns every error of the body into the empty list.
\<close>

definition alphaShape_body ::
  "(point list \<Rightarrow> error + nat list) \<Rightarrow> point list \<Rightarrow> number \<Rightarrow> bool \<Rightarrow> error + edge list" where
  "alphaShape_body delaunay points alpha onlyOuter =
     (case delaunay points of
        Inl e \<Rightarrow> Inl e
      | Inr triangles \<Rightarrow> triangle_loop points alpha onlyOuter triangles [])"

definition alphaShape ::
  "(point list \<Rightarrow> error + nat list) \<Rightarrow> point list \<Rightarrow> number \<Rightarrow> bool \<Rightarrow> error + edge list" where
  "alphaShape delaunay points alpha onlyOuter =
     (if length points < 4 then Inr []
      else case alphaShape_body delaunay points alpha onlyOuter of
             Inl e \<Rightarrow> Inr []
           | Inr resultEdges \<Rightarrow> Inr resultEdges)"

section \<open>clustering.ts\<close>

text \<open>
  Modelled from the spec: the declaration of \<^verbatim>\<open>DataRow\<close> (\<^verbatim>\<open>types.ts\<close>) is not among the
  sources. The spec gives a record optional \<^verbatim>\<open>latitude\<close> and \<^verbatim>\<open>longitude\<close> fields of type
  number; \<open>None\<close> is \<^verbatim>\<open>undefined\<close>. The other fields are not read by the clustering.
\<close>

record DataRow =
  Latitude :: "number option"
  Longitude :: "number option"

text \<open>\<^verbatim>\<open>Number(v)\<close> on such a field: \<^verbatim>\<open>Number(undefined)\<close> is \<^verbatim>\<open>NaN\<close>.\<close>

definition Number :: "number option \<Rightarrow> number" where
  "Number v = (case v of None \<Rightarrow> NaN | Some x \<Rightarrow> x)"

text \<open>
  The interface \<^verbatim>\<open>KMeansResult\<close>, with the fields the code reads. A centroid is either an
  object with a \<^verbatim>\<open>centroid\<close> property or a bare coordinate pair. Both fields are arrays,
  and an array is truthy even when empty: on a result of this interface the tests
  \<^verbatim>\<open>!primaryResult.clusters\<close> and \<^verbatim>\<open>!subResult.centroids\<close> are false.
\<close>

datatype centroid = Wrapped point | Bare point

record KMeansResult =
  clusters :: "nat list"
  centroids :: "centroid list"

text \<open>
  \<^verbatim>\<open>kmeansGenerator(points, k, {})\<close> followed by the loop that keeps the last yielded
  result. The library is not part of the repository: it is a parameter. It is called
  with empty options, so its initialisation draws on ambient randomness: the parameter
  takes the ambient state \<open>'s\<close> and returns the new one. Its outcome is an error it
  threw, \<open>None\<close> when the generator yielded nothing (the result variable stays
  \<^verbatim>\<open>null\<close>), or the last result.
\<close>

type_synonym 's kmeans = "'s \<Rightarrow> point list \<Rightarrow> int \<Rightarrow> (error + KMeansResult option) \<times> 's"

type_synonym delaunay = "point list \<Rightarrow> error + nat list"

text \<open>The value \<^verbatim>\<open>analyze\<close> resolves to.\<close>

record boundary =
  longs :: "number list list"
  lats :: "number list list"

text \<open>The primary feature list: the filter and the map of \<^verbatim>\<open>analyze\<close>.\<close>

definition features :: "DataRow list \<Rightarrow> point list" where
  "features data =
     map (\<lambda>row. (Number (Latitude row), Number (Longitude row)))
       (filter (\<lambda>row. Latitude row \<noteq> None \<and> Longitude row \<noteq> None \<and>
                       \<not> isNaN (Number (Latitude row)) \<and> \<not> isNaN (Number (Longitude row))) data)"

text \<open>\<^verbatim>\<open>Array.from(new Set(primaryClusters))\<close>: a \<^verbatim>\<open>Set\<close> iterates in insertion order.\<close>

definition uniqueClusters :: "nat list \<Rightarrow> nat list" where
  "uniqueClusters primaryClusters =
     fold (\<lambda>c seen. if c \<in> set seen then seen else seen @ [c]) primaryClusters []"

text \<open>
  The points of one primary cluster: \<^verbatim>\<open>data.filter((row, idx) => ...)\<close>, then the map that
  swaps the order to longitude first. The index is the row's index in \<^verbatim>\<open>data\<close>.
\<close>

definition clusterPoints :: "DataRow list \<Rightarrow> nat list \<Rightarrow> nat \<Rightarrow> point list" where
  "clusterPoints data primaryClusters clusterId =
     map (\<lambda>row. (Number (Longitude row), Number (Latitude row)))
       (map snd (filter (\<lambda>(idx, row). idx < length primaryClusters \<and> primaryClusters ! idx = clusterId)
                   (enumerate 0 data)))"

text \<open>\<^verbatim>\<open>Math.floor(Math.pow(m, 0.25))\<close>, raised to 1 when it is smaller.\<close>

definition subClusters :: "nat \<Rightarrow> int" where
  "subClusters m = (let k = \<lfloor>real m powr 0.25\<rfloor> in if k < 1 then 1 else k)"

fun center_of :: "centroid \<Rightarrow> point" where
  "center_of (Wrapped c) = c"
| "center_of (Bare c) = c"

text \<open>
  One iteration of the loop over the primary clusters, from the outcome of the
  secondary clustering on: \<open>None\<close> is a \<^verbatim>\<open>continue\<close> (or no edge), \<open>Some\<close> the pair
  pushed to \<^verbatim>\<open>Hcenters\<close> and \<^verbatim>\<open>Pedges\<close>. An error of the clustering is not caught; one of
  \<^verbatim>\<open>alphaShape\<close> is.
\<close>

definition secondary_boundary ::
  "delaunay \<Rightarrow> (error + KMeansResult option) \<times> 's \<Rightarrow> (error + (point list \<times> edge list) option) \<times> 's" where
  "secondary_boundary delaunay outcome =
     (case outcome of
        (Inl e, s') \<Rightarrow> (Inl e, s')
      | (Inr None, s') \<Rightarrow> (Inr None, s')
      | (Inr (Some subResult), s') \<Rightarrow>
          (let centers = map center_of (centroids subResult) in
           if length centers < 4 then (Inr None, s')
           else case alphaShape delaunay centers (Fin 1) True of
                  Inl e \<Rightarrow> (Inr None, s')
                | Inr edges \<Rightarrow>
                    if length edges > 0 then (Inr (Some (centers, edges)), s') else (Inr None, s')))"

definition cluster_step ::
  "'s kmeans \<Rightarrow> delaunay \<Rightarrow> DataRow list \<Rightarrow> nat list \<Rightarrow> nat \<Rightarrow> 's \<Rightarrow>
     (error + (point list \<times> edge list) option) \<times> 's" where
  "cluster_step kmeans delaunay data primaryClusters clusterId s =
     (let cp = clusterPoints data primaryClusters clusterId in
      if length cp < 4 then (Inr None, s)
      else secondary_boundary delaunay (kmeans s cp (subClusters (length cp))))"

fun cluster_loop ::
  "'s kmeans \<Rightarrow> delaunay \<Rightarrow> DataRow list \<Rightarrow> nat list \<Rightarrow> nat list \<Rightarrow> 's \<Rightarrow>
     point list list \<times> edge list list \<Rightarrow> (error + point list list \<times> edge list list) \<times> 's" where
  "cluster_loop kmeans delaunay data primaryClusters [] s (Hcenters, Pedges) =
     (Inr (Hcenters, Pedges), s)"
| "cluster_loop kmeans delaunay data primaryClusters (clusterId # rest) s (Hcenters, Pedges) =
     (case cluster_step kmeans delaunay data primaryClusters clusterId s of
        (Inl e, s') \<Rightarrow> (Inl e, s')
      | (Inr None, s') \<Rightarrow>
          cluster_loop kmeans delaunay data primaryClusters rest s' (Hcenters, Pedges)
      | (Inr (Some (centers, edges)), s') \<Rightarrow>
          cluster_loop kmeans delaunay data primaryClusters rest s'
            (Hcenters @ [centers], Pedges @ [edges]))"

text \<open>
  An array read \<^verbatim>\<open>xs[j]\<close> with a number as index. \<open>None\<close> is \<^verbatim>\<open>undefined\<close>: what the read
  yields unless \<open>j\<close> is a whole number, at least 0 and less than the length.
\<close>

definition at_index :: "'a list \<Rightarrow> number \<Rightarrow> 'a option" where
  "at_index xs j =
     (case j of
        Fin x \<Rightarrow> (if 0 \<le> x \<and> of_int \<lfloor>x\<rfloor> = x \<and> nat \<lfloor>x\<rfloor> < length xs
                  then Some (xs ! nat \<lfloor>x\<rfloor>) else None)
      | _ \<Rightarrow> None)"

text \<open>A length, or an index held in a \<^verbatim>\<open>Uint32Array\<close>, as the number it is.\<close>

definition index_number :: "nat \<Rightarrow> number" where
  "index_number i = Fin (real i)"

text \<open>
  The inner loop of the assembly, over the edges of one group; \<open>los\<close> and \<open>las\<close> are the
  arrays \<^verbatim>\<open>longs\<close> and \<^verbatim>\<open>lats\<close> being filled. An edge is a \<^verbatim>\<open>[number, number]\<close>. The guard
  \<^verbatim>\<open>j < centers.length && k < centers.length\<close> has no lower bound and does not ask for a
  whole number: an index that passes it and has no centroid makes \<^verbatim>\<open>centers[j][0]\<close> a read
  on \<^verbatim>\<open>undefined\<close>, a \<^verbatim>\<open>TypeError\<close>. An edge that fails the guard is passed over.
\<close>

fun edge_loop ::
  "point list \<Rightarrow> (number \<times> number) list \<Rightarrow> number list list \<times> number list list \<Rightarrow>
     error + number list list \<times> number list list" where
  "edge_loop centers [] (los, las) = Inr (los, las)"
| "edge_loop centers ((j, k) # edges) (los, las) =
     (if lt j (index_number (length centers)) \<and> lt k (index_number (length centers))
      then (case (at_index centers j, at_index centers k) of
              (Some cj, Some ck) \<Rightarrow>
                edge_loop centers edges (los @ [[fst cj, fst ck]], las @ [[snd cj, snd ck]])
            | _ \<Rightarrow> Inl TypeError)
      else edge_loop centers edges (los, las))"

text \<open>
  The outer loop, \<^verbatim>\<open>for (let i = 0; i < Hcenters.length; i++)\<close>. Were \<^verbatim>\<open>Pedges[i]\<close>
  \<^verbatim>\<open>undefined\<close>, iterating it would throw a \<^verbatim>\<open>TypeError\<close>. The edge lists are those that
  \<^verbatim>\<open>alphaShape\<close> returned: the inner loop reads their indices as numbers.
\<close>

definition edge_numbers :: "edge \<Rightarrow> number \<times> number" where
  "edge_numbers e = (index_number (fst e), index_number (snd e))"

function assemble ::
  "point list list \<Rightarrow> edge list list \<Rightarrow> nat \<Rightarrow> number list list \<times> number list list \<Rightarrow>
     error + boundary" where
  "assemble Hcenters Pedges i (los, las) =
     (if i < length Hcenters
      then (if i < length Pedges
            then (case edge_loop (Hcenters ! i) (map edge_numbers (Pedges ! i)) (los, las) of
                    Inl e \<Rightarrow> Inl e
                  | Inr out \<Rightarrow> assemble Hcenters Pedges (Suc i) out)
            else Inl TypeError)
      else Inr \<lparr>longs = los, lats = las\<rparr>)"
  by pat_completeness auto
termination
  by (relation "measure (\<lambda>(Hcenters, Pedges, i, out). length Hcenters - i)") auto

declare assemble.simps [simp del]

text \<open>What \<^verbatim>\<open>analyze\<close> does once the primary clustering has returned.\<close>

definition secondary_pass ::
  "'s kmeans \<Rightarrow> delaunay \<Rightarrow> DataRow list \<Rightarrow> (error + KMeansResult option) \<times> 's \<Rightarrow>
     (error + boundary) \<times> 's" where
  "secondary_pass kmeans delaunay data outcome =
     (case outcome of
        (Inl e, s') \<Rightarrow> (Inl e, s')
      | (Inr None, s') \<Rightarrow> (Inr \<lparr>longs = [], lats = []\<rparr>, s')
      | (Inr (Some primaryResult), s') \<Rightarrow>
          (let primaryClusters = clusters primaryResult;
               uniq = uniqueClusters primaryClusters
           in case cluster_loop kmeans delaunay data primaryClusters uniq s' ([], []) of
                (Inl e, s'') \<Rightarrow> (Inl e, s'')
              | (Inr (Hcenters, Pedges), s'') \<Rightarrow> (assemble Hcenters Pedges 0 ([], []), s'')))"

text \<open>
  \<^verbatim>\<open>analyze(data, nCluster)\<close>, run from the ambient state \<open>s\<close>. The requested count is an
  integer.
\<close>

definition analyze ::
  "'s kmeans \<Rightarrow> delaunay \<Rightarrow> DataRow list \<Rightarrow> int \<Rightarrow> 's \<Rightarrow> (error + boundary) \<times> 's" where
  "analyze kmeans delaunay data nCluster s =
     (let actualNClusters = min nCluster (int (length (features data))) in
      if actualNClusters < 1 \<or> length (features data) < 1
      then (Inr \<lparr>longs = [], lats = []\<rparr>, s)
      else secondary_pass kmeans delaunay data (kmeans s (features data) actualNClusters))"

section \<open>combinedVisualization.tsx\<close>




section \<open>Inputs and vocabulary of the properties\<close>

text \<open>The unit square of the edge-cancellation test.\<close>

definition square :: "point list" where
  "square = [(Fin 0, Fin 0), (Fin 1, Fin 0), (Fin 1, Fin 1), (Fin 0, Fin 1)]"

text \<open>
  The triangulations of the square a Delaunay routine can return: two triangles over
  one of the two diagonals, both with the same orientation, each starting at any of its
  corners, in either order.
\<close>

definition rotations :: "nat \<times> nat \<times> nat \<Rightarrow> nat list list" where
  "rotations t = (case t of (a, b, c) \<Rightarrow> [[a, b, c], [b, c, a], [c, a, b]])"

definition two_triangles :: "nat \<times> nat \<times> nat \<Rightarrow> nat \<times> nat \<times> nat \<Rightarrow> nat list list" where
  "two_triangles t u =
     concat (map (\<lambda>x. map (\<lambda>y. x @ y) (rotations u)) (rotations t)) @
     concat (map (\<lambda>y. map (\<lambda>x. y @ x) (rotations t)) (rotations u))"

definition square_triangulations :: "nat list list" where
  "square_triangulations =
     two_triangles (0, 1, 2) (0, 2, 3) @ two_triangles (0, 1, 3) (1, 2, 3) @
     two_triangles (2, 1, 0) (3, 2, 0) @ two_triangles (3, 1, 0) (3, 2, 1)"

text \<open>The unit square with lower left corner \<open>(x, y)\<close>; \<open>square\<close> is the one at the origin.\<close>

definition square_at :: "real \<Rightarrow> real \<Rightarrow> point list" where
  "square_at x y = [(Fin x, Fin y), (Fin (x + 1), Fin y), (Fin (x + 1), Fin (y + 1)), (Fin x, Fin (y + 1))]"

text \<open>An edge without its direction.\<close>

definition undirected :: "edge \<Rightarrow> nat set" where
  "undirected e = {fst e, snd e}"

text \<open>
  An edge whose two indices have a centroid, and the two entries the assembly pushes for
  it: the longitudes of its endpoints, and their latitudes.
\<close>

definition in_range :: "point list \<Rightarrow> edge \<Rightarrow> bool" where
  "in_range centers e = (fst e < length centers \<and> snd e < length centers)"

definition lon_pair :: "point list \<Rightarrow> edge \<Rightarrow> number list" where
  "lon_pair centers e = [fst (centers ! fst e), fst (centers ! snd e)]"

definition lat_pair :: "point list \<Rightarrow> edge \<Rightarrow> number list" where
  "lat_pair centers e = [snd (centers ! fst e), snd (centers ! snd e)]"

text \<open>
  An example run. A zone is 256 records, 64 at each corner of a unit square of longitude
  and latitude; the data are two zones. The clustering of the example labels the first
  zone 1 and the second 0 in the primary pass (asked for two clusters) and, asked for four
  clusters of one zone, finds its four corners; its state counts the calls. The
  triangulation of the example splits a square along the diagonal from corner 0 to
  corner 2.
\<close>

definition row_at :: "real \<Rightarrow> real \<Rightarrow> DataRow" where
  "row_at lat lon = \<lparr>Latitude = Some (Fin lat), Longitude = Some (Fin lon)\<rparr>"

definition zone :: "real \<Rightarrow> real \<Rightarrow> DataRow list" where
  "zone x y = replicate 64 (row_at y x) @ replicate 64 (row_at y (x + 1)) @
              replicate 64 (row_at (y + 1) (x + 1)) @ replicate 64 (row_at (y + 1) x)"

definition two_zones :: "DataRow list" where
  "two_zones = zone 0 10 @ zone 5 10"

definition example_primary :: KMeansResult where
  "example_primary =
     \<lparr>clusters = replicate 256 1 @ replicate 256 0,
      centroids = [Bare (Fin 10.5, Fin 5.5), Bare (Fin 10.5, Fin 0.5)]\<rparr>"

definition example_kmeans :: "nat kmeans" where
  "example_kmeans s points k =
     (Inr (Some (if k = 4
                 then \<lparr>clusters = replicate 64 0 @ replicate 64 1 @ replicate 64 2 @ replicate 64 3,
                       centroids = [Bare (points ! 0), Bare (points ! 64), Bare (points ! 128),
                                    Bare (points ! 192)]\<rparr>
                 else example_primary)),
      Suc s)"

text \<open>The boundary of the two zones: the four sides of the first, then those of the second.\<close>

definition two_zones_boundary :: boundary where
  "two_zones_boundary =
     \<lparr>longs = [[Fin 0, Fin 1], [Fin 1, Fin 1], [Fin 1, Fin 0], [Fin 0, Fin 0],
               [Fin 5, Fin 6], [Fin 6, Fin 6], [Fin 6, Fin 5], [Fin 5, Fin 5]],
      lats = [[Fin 10, Fin 10], [Fin 10, Fin 11], [Fin 11, Fin 11], [Fin 11, Fin 10],
              [Fin 10, Fin 10], [Fin 10, Fin 11], [Fin 11, Fin 11], [Fin 11, Fin 10]]\<rparr>"

definition example_delaunay :: delaunay where
  "example_delaunay points = Inr [0, 1, 2, 0, 2, 3]"

text \<open>
  A second example: twelve records in three groups of four, and a clustering that labels
  the groups 0, 1, 2 when asked for three clusters and otherwise returns one centroid.
\<close>

definition twelve_points :: "DataRow list" where
  "twelve_points =
     [row_at 0 0, row_at 0 1, row_at 1 1, row_at 1 0,
      row_at 10 10, row_at 10 11, row_at 11 11, row_at 11 10,
      row_at 0 20, row_at 0 21, row_at 1 21, row_at 1 20]"

definition small_kmeans :: "nat kmeans" where
  "small_kmeans s points k =
     (Inr (Some (if k = 3
                 then \<lparr>clusters = [0, 0, 0, 0, 1, 1, 1, 1, 2, 2, 2, 2],
                       centroids = [Bare (Fin 0.5, Fin 0.5), Bare (Fin 10.5, Fin 10.5),
                                    Bare (Fin 0.5, Fin 20.5)]\<rparr>
                 else \<lparr>clusters = replicate (length points) 0, centroids = [Bare (points ! 0)]\<rparr>)),
      Suc s)"





section \<open>Properties of alphaShape\<close>

lemma heron_right_isosceles:
  fixes r :: real
  assumes r: "r * r = 2" "0 < r"
  shows "(2 + r) / 2 * ((2 + r) / 2 - 1) * ((2 + r) / 2 - 1) * ((2 + r) / 2 - r) = 1 / 4"
proof -
  have "(2 + r) / 2 * ((2 + r) / 2 - 1) * ((2 + r) / 2 - 1) * ((2 + r) / 2 - r)
      = ((2 + r) * (2 - r)) * (r * r) / 16"
    by (simp add: field_simps)
  also have "\<dots> = (4 - r * r) * (r * r) / 16" by (simp add: algebra_simps)
  also have "\<dots> = 1 / 4" using r by simp
  finally show ?thesis .
qed

lemma sqrt_quarter: "sqrt (1 / 4) = 1 / 2"
  by (rule real_sqrt_unique) (simp_all add: power2_eq_square)

lemma side_square_at:
  "side (Fin x, Fin y) (Fin (x + 1), Fin y) = Fin 1"
  "side (Fin (x + 1), Fin y) (Fin x, Fin y) = Fin 1"
  "side (Fin (x + 1), Fin y) (Fin (x + 1), Fin (y + 1)) = Fin 1"
  "side (Fin (x + 1), Fin (y + 1)) (Fin (x + 1), Fin y) = Fin 1"
  "side (Fin (x + 1), Fin (y + 1)) (Fin x, Fin (y + 1)) = Fin 1"
  "side (Fin x, Fin (y + 1)) (Fin (x + 1), Fin (y + 1)) = Fin 1"
  "side (Fin x, Fin (y + 1)) (Fin x, Fin y) = Fin 1"
  "side (Fin x, Fin y) (Fin x, Fin (y + 1)) = Fin 1"
  "side (Fin x, Fin y) (Fin (x + 1), Fin (y + 1)) = Fin (sqrt 2)"
  "side (Fin (x + 1), Fin (y + 1)) (Fin x, Fin y) = Fin (sqrt 2)"
  "side (Fin (x + 1), Fin y) (Fin x, Fin (y + 1)) = Fin (sqrt 2)"
  "side (Fin x, Fin (y + 1)) (Fin (x + 1), Fin y) = Fin (sqrt 2)"
  by (simp_all add: side_def sub_def)

lemma heron_perm:
  fixes r :: real
  assumes r: "r * r = 2" "0 < r"
  shows "(2 + r) / 2 * ((2 + r) / 2 - 1) * ((2 + r) / 2 - r) * ((2 + r) / 2 - 1) = 1 / 4"
    and "(2 + r) / 2 * ((2 + r) / 2 - r) * ((2 + r) / 2 - 1) * ((2 + r) / 2 - 1) = 1 / 4"
  using heron_right_isosceles [OF r] by (simp_all add: mult.commute mult.left_commute)

lemma area_Fin:
  assumes "side pa pb = Fin a" "side pb pc = Fin b" "side pc pa = Fin c"
  shows "area pa pb pc =
    sqrt_n (Fin ((a + b + c) / 2 * ((a + b + c) / 2 - a) * ((a + b + c) / 2 - b) * ((a + b + c) / 2 - c)))"
  unfolding area_def Let_def assms sub_def by simp

lemma circum_r_Fin:
  assumes "side pa pb = Fin a" "side pb pc = Fin b" "side pc pa = Fin c"
    and "area pa pb pc = Fin ar" "ar \<noteq> 0"
  shows "circum_r pa pb pc = Fin (a * b * c / (4 * ar))"
  unfolding circum_r_def Let_def assms using assms(5) by simp

lemma right_isosceles:
  assumes "side pa pb = Fin a" "side pb pc = Fin b" "side pc pa = Fin c"
    and "(a, b, c) = (1, 1, sqrt 2) \<or> (a, b, c) = (1, sqrt 2, 1) \<or> (a, b, c) = (sqrt 2, 1, 1)"
  shows "area pa pb pc = Fin (1 / 2)" and "circum_r pa pb pc = Fin (sqrt 2 / 2)"
proof -
  have r: "sqrt 2 * sqrt 2 = (2::real)" "0 < sqrt (2::real)" by simp_all
  note h = heron_right_isosceles [OF r] heron_perm [OF r]
  have s: "(1 + 1 + sqrt 2) / 2 = (2 + sqrt 2) / 2" "(1 + sqrt 2 + 1) / 2 = (2 + sqrt 2) / 2"
    "(sqrt 2 + 1 + 1) / 2 = (2 + sqrt 2) / 2" by simp_all
  have "(a + b + c) / 2 * ((a + b + c) / 2 - a) * ((a + b + c) / 2 - b) * ((a + b + c) / 2 - c) = 1 / 4"
    using assms(4) by (elim disjE) (simp_all only: prod.inject s h)
  then show a: "area pa pb pc = Fin (1 / 2)"
    unfolding area_Fin [OF assms(1-3)] by (simp only: sqrt_n.simps sqrt_quarter) simp
  have "a * b * c = sqrt 2" using assms(4) by auto
  then show "circum_r pa pb pc = Fin (sqrt 2 / 2)"
    unfolding circum_r_Fin [OF assms(1-3) a, simplified] by simp
qed

lemma nth_square_at:
  "square_at x y ! 0 = (Fin x, Fin y)" "square_at x y ! Suc 0 = (Fin (x + 1), Fin y)"
  "square_at x y ! 2 = (Fin (x + 1), Fin (y + 1))" "square_at x y ! 3 = (Fin x, Fin (y + 1))"
  "length (square_at x y) = 4"
  by (simp_all add: square_at_def numeral_2_eq_2 numeral_3_eq_3)

lemma square_at_triangle:
  assumes "i < 4" "j < 4" "k < 4" "i \<noteq> j" "j \<noteq> k" "k \<noteq> i"
  shows "area (square_at x y ! i) (square_at x y ! j) (square_at x y ! k) = Fin (1 / 2)"
    and "circum_r (square_at x y ! i) (square_at x y ! j) (square_at x y ! k) = Fin (sqrt 2 / 2)"
proof -
  let ?q = "square_at x y"
  have c: "i = 0 \<or> i = 1 \<or> i = 2 \<or> i = 3" "j = 0 \<or> j = 1 \<or> j = 2 \<or> j = 3"
    "k = 0 \<or> k = 1 \<or> k = 2 \<or> k = 3" using assms by auto
  have "\<exists>a b c. side (?q ! i) (?q ! j) = Fin a \<and> side (?q ! j) (?q ! k) = Fin b \<and>
      side (?q ! k) (?q ! i) = Fin c \<and>
      ((a, b, c) = (1, 1, sqrt 2) \<or> (a, b, c) = (1, sqrt 2, 1) \<or> (a, b, c) = (sqrt 2, 1, 1))"
    using c assms(4-6) by (elim disjE) (simp_all add: nth_square_at side_square_at)
  then obtain a b c where "side (?q ! i) (?q ! j) = Fin a" "side (?q ! j) (?q ! k) = Fin b"
      "side (?q ! k) (?q ! i) = Fin c"
      "(a, b, c) = (1, 1, sqrt 2) \<or> (a, b, c) = (1, sqrt 2, 1) \<or> (a, b, c) = (sqrt 2, 1, 1)"
    by blast
  from right_isosceles [OF this]
  show "area (?q ! i) (?q ! j) (?q ! k) = Fin (1 / 2)"
    and "circum_r (?q ! i) (?q ! j) (?q ! k) = Fin (sqrt 2 / 2)" by simp_all
qed

lemma square_eq: "square = square_at 0 0"
  by (simp add: square_def square_at_def)

lemmas square_triangle = square_at_triangle [of _ _ _ 0 0, folded square_eq]

lemma sqrt2_lt_20: "sqrt 2 < (20::real)"
  by (rule real_less_lsqrt) simp_all

lemma len_square: "length square = 4" by (simp add: square_def)

lemma triangle_loop_square:
  "\<forall>ts \<in> set square_triangulations.
     (\<exists>es. triangle_loop square (Fin 10) True ts [] = Inr es \<and> length es = 4 \<and>
        undirected ` set es = {{0, 1}, {1, 2}, {2, 3}, {3, 0}})"
  unfolding square_triangulations_def two_triangles_def rotations_def
  by (simp add: len_square square_triangle sqrt2_lt_20 addEdge_def undirected_def insert_commute)

lemma triangle_loop_no_pass:
  assumes "\<forall>k. 3 * k + 2 < length ts \<and> ts ! (3 * k) < length points \<and>
             ts ! (3 * k + 1) < length points \<and> ts ! (3 * k + 2) < length points \<longrightarrow>
           \<not> lt (circum_r (points ! (ts ! (3 * k))) (points ! (ts ! (3 * k + 1)))
                   (points ! (ts ! (3 * k + 2)))) alpha"
  shows "triangle_loop points alpha onlyOuter ts edges = Inr edges \<or>
         triangle_loop points alpha onlyOuter ts edges = Inl TypeError"
  using assms
proof (induction points alpha onlyOuter ts edges rule: triangle_loop.induct)
  case (2 points alpha onlyOuter ia ib ic rest edges)
  let ?ts = "ia # ib # ic # rest"
  have shift: "\<And>k. ?ts ! (3 * Suc k) = rest ! (3 * k)" "\<And>k. ?ts ! (3 * Suc k + 1) = rest ! (3 * k + 1)"
      "\<And>k. ?ts ! (3 * Suc k + 2) = rest ! (3 * k + 2)"
      "\<And>k. (3 * Suc k + 2 < length ?ts) = (3 * k + 2 < length rest)"
    by (simp_all add: numeral_3_eq_3 numeral_2_eq_2)
  have rest: "\<forall>k. 3 * k + 2 < length rest \<and> rest ! (3 * k) < length points \<and>
             rest ! (3 * k + 1) < length points \<and> rest ! (3 * k + 2) < length points \<longrightarrow>
           \<not> lt (circum_r (points ! (rest ! (3 * k))) (points ! (rest ! (3 * k + 1)))
                   (points ! (rest ! (3 * k + 2)))) alpha"
  proof (intro allI impI)
    fix k
    assume "3 * k + 2 < length rest \<and> rest ! (3 * k) < length points \<and>
             rest ! (3 * k + 1) < length points \<and> rest ! (3 * k + 2) < length points"
    with "2.prems" [rule_format, of "Suc k", unfolded shift]
    show "\<not> lt (circum_r (points ! (rest ! (3 * k))) (points ! (rest ! (3 * k + 1)))
                   (points ! (rest ! (3 * k + 2)))) alpha"
      by blast
  qed
  show ?case
  proof (cases "ia < length points \<and> ib < length points \<and> ic < length points")
    case False
    then show ?thesis by auto
  next
    case True
    with "2.prems" [rule_format, of 0]
    have np: "\<not> lt (circum_r (points ! ia) (points ! ib) (points ! ic)) alpha" by simp
    show ?thesis
    proof (cases "area (points ! ia) (points ! ib) (points ! ic) = Fin 0")
      case a: True
      with True "2.IH"(1) [OF True a rest] show ?thesis by simp
    next
      case a: False
      with True np "2.IH"(3) [OF True a np rest] show ?thesis by simp
    qed
  qed
qed simp_all


lemma addEdge_cancel:
  assumes "(j, i) \<in> set edges" "(i, j) \<notin> set edges"
  shows "set (addEdge True edges i j) = set edges - {(j, i)}"
  using assms by (auto simp: addEdge_def)

text \<open>
  C1. For the unit square with \<open>alpha = 10\<close> in outer-only mode, whichever two-triangle
  triangulation the library returns, \<open>alphaShape\<close> returns four edges, which are the four
  sides of the square; neither diagonal is among them, in either direction. In general,
  registering an edge whose reverse is registered removes the reverse and does not
  register the edge.
\<close>

theorem alphaShape_square_perimeter:
  assumes "delaunay square = Inr ts" and "ts \<in> set square_triangulations"
  shows "\<exists>es. alphaShape delaunay square (Fin 10) True = Inr es \<and> length es = 4 \<and>
           undirected ` set es = {{0, 1}, {1, 2}, {2, 3}, {3, 0}} \<and>
           (0, 2) \<notin> set es \<and> (2, 0) \<notin> set es \<and> (1, 3) \<notin> set es \<and> (3, 1) \<notin> set es \<and>
           (\<forall>edges i j. (j, i) \<in> set edges \<and> (i, j) \<notin> set edges \<longrightarrow>
              set (addEdge True edges i j) = set edges - {(j, i)})"
proof -
  from triangle_loop_square assms(2) obtain es where
    es: "triangle_loop square (Fin 10) True ts [] = Inr es" "length es = 4"
      "undirected ` set es = {{0, 1}, {1, 2}, {2, 3}, {3, 0}}"
    by blast
  have a: "alphaShape delaunay square (Fin 10) True = Inr es"
    by (simp add: alphaShape_def alphaShape_body_def assms(1) es(1) len_square)
  have d: "{a, b} \<notin> undirected ` set es" if "{a, b} \<notin> {{0, 1}, {1, 2}, {2, 3}, {3, 0::nat}}" for a b
    using that es(3) by simp
  have nd: "(a, b) \<notin> set es" if "{a, b} \<notin> {{0, 1}, {1, 2}, {2, 3}, {3, 0::nat}}" for a b
  proof
    assume "(a, b) \<in> set es"
    then have "undirected (a, b) \<in> undirected ` set es" by (rule imageI)
    with d [OF that] show False by (simp add: undirected_def)
  qed
  have "(0, 2) \<notin> set es" "(2, 0) \<notin> set es" "(1, 3) \<notin> set es" "(3, 1) \<notin> set es"
    by (rule nd, simp add: doubleton_eq_iff)+
  note nds = this
  have c: "\<forall>edges i j. (j, i) \<in> set edges \<and> (i, j) \<notin> set edges \<longrightarrow>
              set (addEdge True edges i j) = set edges - {(j, i)}"
    by (intro allI impI) (rule addEdge_cancel, simp_all)
  show ?thesis
    by (rule exI [of _ es]) (intro conjI a es(2) es(3) nds c)
qed

theorem alphaShape_square_perimeter_witness:
  "alphaShape (\<lambda>_. Inr [0, 1, 2, 0, 2, 3]) square (Fin 10) True = Inr [(0, 1), (1, 2), (2, 3), (3, 0)] \<and>
   (\<exists>es. alphaShape (\<lambda>_. Inr [0, 1, 2, 0, 2, 3]) square (Fin 10) True = Inr es \<and> length es = 4 \<and>
      undirected ` set es = {{0, 1}, {1, 2}, {2, 3}, {3, 0}} \<and>
      (0, 2) \<notin> set es \<and> (2, 0) \<notin> set es \<and> (1, 3) \<notin> set es \<and> (3, 1) \<notin> set es \<and>
      (\<forall>edges i j. (j, i) \<in> set edges \<and> (i, j) \<notin> set edges \<longrightarrow>
         set (addEdge True edges i j) = set edges - {(j, i)}))"
proof -
  have m: "[0, 1, 2, 0, 2, 3] \<in> set square_triangulations"
    by (simp add: square_triangulations_def two_triangles_def rotations_def)
  have e: "alphaShape (\<lambda>_. Inr [0, 1, 2, 0, 2, 3]) square (Fin 10) True = Inr [(0, 1), (1, 2), (2, 3), (3, 0)]"
    by (simp add: alphaShape_def alphaShape_body_def len_square square_triangle sqrt2_lt_20 addEdge_def)
  show ?thesis
    by (rule conjI [OF e alphaShape_square_perimeter [of "\<lambda>_. Inr [0, 1, 2, 0, 2, 3]", OF refl m]])
qed

lemma sqrt2_not_lt_1: "\<not> sqrt 2 < (1::real)"
  by simp

text \<open>
  C3. \<open>alphaShape\<close> returns an edge list on every input and never an error. The list is
  empty when fewer than four points are given, when the triangulation throws, and when no
  triangle of the triangulation has a circumradius below \<open>alpha\<close>.
\<close>

theorem alphaShape_never_raises:
  "(\<exists>es. alphaShape delaunay points alpha onlyOuter = Inr es) \<and>
   (length points < 4 \<longrightarrow> alphaShape delaunay points alpha onlyOuter = Inr []) \<and>
   ((\<exists>e. delaunay points = Inl e) \<longrightarrow> alphaShape delaunay points alpha onlyOuter = Inr []) \<and>
   ((\<forall>ts k. delaunay points = Inr ts \<and> 3 * k + 2 < length ts \<and> ts ! (3 * k) < length points \<and>
        ts ! (3 * k + 1) < length points \<and> ts ! (3 * k + 2) < length points \<longrightarrow>
        \<not> lt (circum_r (points ! (ts ! (3 * k))) (points ! (ts ! (3 * k + 1)))
                (points ! (ts ! (3 * k + 2)))) alpha) \<longrightarrow>
    alphaShape delaunay points alpha onlyOuter = Inr [])"
proof (intro conjI impI)
  show "\<exists>es. alphaShape delaunay points alpha onlyOuter = Inr es"
    by (simp add: alphaShape_def split: sum.split)
  show "alphaShape delaunay points alpha onlyOuter = Inr []" if "length points < 4"
    using that by (simp add: alphaShape_def)
  show "alphaShape delaunay points alpha onlyOuter = Inr []" if "\<exists>e. delaunay points = Inl e"
    using that by (auto simp: alphaShape_def alphaShape_body_def)
  show "alphaShape delaunay points alpha onlyOuter = Inr []"
    if h: "\<forall>ts k. delaunay points = Inr ts \<and> 3 * k + 2 < length ts \<and> ts ! (3 * k) < length points \<and>
        ts ! (3 * k + 1) < length points \<and> ts ! (3 * k + 2) < length points \<longrightarrow>
        \<not> lt (circum_r (points ! (ts ! (3 * k))) (points ! (ts ! (3 * k + 1)))
                (points ! (ts ! (3 * k + 2)))) alpha"
  proof (cases "delaunay points")
    case (Inl e)
    then show ?thesis by (simp add: alphaShape_def alphaShape_body_def)
  next
    case (Inr ts)
    with h have "\<forall>k. 3 * k + 2 < length ts \<and> ts ! (3 * k) < length points \<and>
        ts ! (3 * k + 1) < length points \<and> ts ! (3 * k + 2) < length points \<longrightarrow>
        \<not> lt (circum_r (points ! (ts ! (3 * k))) (points ! (ts ! (3 * k + 1)))
                (points ! (ts ! (3 * k + 2)))) alpha"
      by blast
    from triangle_loop_no_pass [OF this, of onlyOuter "[]"] Inr
    show ?thesis by (auto simp: alphaShape_def alphaShape_body_def)
  qed
qed

theorem alphaShape_never_raises_witness:
  "alphaShape (\<lambda>_. Inr [0, 1, 2]) [(Fin 0, Fin 0), (Fin 1, Fin 0), (Fin 1, Fin 1)] (Fin 10) True = Inr [] \<and>
   alphaShape (\<lambda>_. Inl DelaunayError) square (Fin 10) True = Inr [] \<and>
   alphaShape (\<lambda>_. Inr [0, 1, 2, 0, 2, 3]) square (Fin (1 / 2)) True = Inr []"
proof -
  let ?small = "[(Fin 0, Fin 0), (Fin 1, Fin 0), (Fin 1, Fin 1)]"
  have l: "length ?small < 4" by simp
  have t: "\<exists>e. (\<lambda>_. Inl DelaunayError :: error + nat list) square = Inl e" by simp
  have n: "\<forall>ts k. (\<lambda>_. Inr [0, 1, 2, 0, 2, 3]) square = (Inr ts :: error + nat list) \<and>
        3 * k + 2 < length ts \<and> ts ! (3 * k) < length square \<and>
        ts ! (3 * k + 1) < length square \<and> ts ! (3 * k + 2) < length square \<longrightarrow>
        \<not> lt (circum_r (square ! (ts ! (3 * k))) (square ! (ts ! (3 * k + 1)))
                (square ! (ts ! (3 * k + 2)))) (Fin (1 / 2))"
  proof (intro allI impI)
    fix ts :: "nat list" and k :: nat
    assume a: "(\<lambda>_. Inr [0, 1, 2, 0, 2, 3]) square = (Inr ts :: error + nat list) \<and>
        3 * k + 2 < length ts \<and> ts ! (3 * k) < length square \<and>
        ts ! (3 * k + 1) < length square \<and> ts ! (3 * k + 2) < length square"
    then have ts: "ts = [0, 1, 2, 0, 2, 3]" by simp
    with a have "k = 0 \<or> k = 1" by auto
    then show "\<not> lt (circum_r (square ! (ts ! (3 * k))) (square ! (ts ! (3 * k + 1)))
                (square ! (ts ! (3 * k + 2)))) (Fin (1 / 2))"
      unfolding ts by (elim disjE) (simp_all add: square_triangle sqrt2_not_lt_1)
  qed
  note a = alphaShape_never_raises [of "\<lambda>_. Inr [0, 1, 2]" ?small "Fin 10" True]
  note b = alphaShape_never_raises [of "\<lambda>_. Inl DelaunayError" square "Fin 10" True]
  note c = alphaShape_never_raises [of "\<lambda>_. Inr [0, 1, 2, 0, 2, 3]" square "Fin (1 / 2)" True]
  show ?thesis
    by (intro conjI a [THEN conjunct2, THEN conjunct1, rule_format, OF l]
        b [THEN conjunct2, THEN conjunct2, THEN conjunct1, rule_format, OF t]
        c [THEN conjunct2, THEN conjunct2, THEN conjunct2, THEN mp, OF n])
qed

section \<open>Properties of the point filter and the primary pass\<close>

lemma features_filter:
  "features data =
     map (\<lambda>row. (the (Latitude row), the (Longitude row)))
       (filter (\<lambda>row. \<exists>x y. Latitude row = Some x \<and> Longitude row = Some y \<and> x \<noteq> NaN \<and> y \<noteq> NaN) data)"
proof -
  have p: "(Latitude row \<noteq> None \<and> Longitude row \<noteq> None \<and>
            \<not> isNaN (Number (Latitude row)) \<and> \<not> isNaN (Number (Longitude row))) =
           (\<exists>x y. Latitude row = Some x \<and> Longitude row = Some y \<and> x \<noteq> NaN \<and> y \<noteq> NaN)" for row :: DataRow
    by (cases "Latitude row"; cases "Longitude row") (simp_all add: isNaN_def Number_def)
  show ?thesis
    unfolding features_def p
    by (rule map_cong [OF refl]) (auto simp: Number_def)
qed

text \<open>
  C8 (as amended). The filter keeps, in order, exactly the records whose two fields are
  both present and both different from \<open>NaN\<close>; no coordinate of a kept point is \<open>NaN\<close>.
  An infinite coordinate passes the filter.
\<close>

theorem features_not_NaN:
  "features data =
     map (\<lambda>row. (the (Latitude row), the (Longitude row)))
       (filter (\<lambda>row. \<exists>x y. Latitude row = Some x \<and> Longitude row = Some y \<and> x \<noteq> NaN \<and> y \<noteq> NaN) data) \<and>
   (\<forall>p \<in> set (features data). fst p \<noteq> NaN \<and> snd p \<noteq> NaN) \<and>
   (\<forall>row \<in> set data. \<forall>x y. Latitude row = Some (Fin x) \<and> Longitude row = Some (Fin y) \<longrightarrow>
      (Fin x, Fin y) \<in> set (features data))"
proof (intro conjI)
  show "\<forall>p \<in> set (features data). fst p \<noteq> NaN \<and> snd p \<noteq> NaN"
    unfolding features_filter by auto
  show "\<forall>row \<in> set data. \<forall>x y. Latitude row = Some (Fin x) \<and> Longitude row = Some (Fin y) \<longrightarrow>
      (Fin x, Fin y) \<in> set (features data)"
    unfolding features_filter by force
qed (rule features_filter)

theorem features_not_NaN_witness:
  "features [\<lparr>Latitude = Some (Fin 1), Longitude = Some (Fin 2)\<rparr>, \<lparr>Latitude = None, Longitude = Some (Fin 3)\<rparr>,
             \<lparr>Latitude = Some NaN, Longitude = Some (Fin 4)\<rparr>, \<lparr>Latitude = Some (Fin 5), Longitude = Some PosInf\<rparr>]
     = [(Fin 1, Fin 2), (Fin 5, PosInf)]"
  using features_not_NaN [of "[\<lparr>Latitude = Some (Fin 1), Longitude = Some (Fin 2)\<rparr>, \<lparr>Latitude = None, Longitude = Some (Fin 3)\<rparr>,
             \<lparr>Latitude = Some NaN, Longitude = Some (Fin 4)\<rparr>, \<lparr>Latitude = Some (Fin 5), Longitude = Some PosInf\<rparr>]"]
  by simp

theorem features_finite_counterexample:
  "features [\<lparr>Latitude = Some PosInf, Longitude = Some (Fin 0)\<rparr>] = [(PosInf, Fin 0)] \<and>
   \<not> (\<forall>p \<in> set (features [\<lparr>Latitude = Some PosInf, Longitude = Some (Fin 0)\<rparr>]).
        is_finite (fst p) \<and> is_finite (snd p))"
  by (simp add: features_def Number_def isNaN_def is_finite_def)

text \<open>
  C4. The primary clustering is asked for \<open>min nCluster |features|\<close> clusters. When that
  number is below 1 or there is no valid point, \<open>analyze\<close> returns the empty boundary, with
  no error and without calling the clustering.
\<close>

theorem analyze_clamp:
  "(min nCluster (int (length (features data))) < 1 \<or> features data = [] \<longrightarrow>
      analyze kmeans delaunay data nCluster s = (Inr \<lparr>longs = [], lats = []\<rparr>, s)) \<and>
   (\<not> (min nCluster (int (length (features data))) < 1 \<or> features data = []) \<longrightarrow>
      analyze kmeans delaunay data nCluster s =
        secondary_pass kmeans delaunay data
          (kmeans s (features data) (min nCluster (int (length (features data))))))"
  by (auto simp: analyze_def Let_def)

theorem analyze_clamp_witness:
  "analyze (\<lambda>s points k. (Inl KMeansError, s)) (\<lambda>_. Inl DelaunayError) [] 3 (0::nat)
     = (Inr \<lparr>longs = [], lats = []\<rparr>, 0) \<and>
   analyze (\<lambda>s points k. (Inl KMeansError, s)) (\<lambda>_. Inl DelaunayError)
       [\<lparr>Latitude = Some (Fin 1), Longitude = Some (Fin 2)\<rparr>] 0 (0::nat)
     = (Inr \<lparr>longs = [], lats = []\<rparr>, 0) \<and>
   analyze (\<lambda>s points k. (if k = 1 then Inr None else Inl KMeansError, Suc s)) (\<lambda>_. Inl DelaunayError)
       [\<lparr>Latitude = Some (Fin 1), Longitude = Some (Fin 2)\<rparr>] 5 (0::nat)
     = (Inr \<lparr>longs = [], lats = []\<rparr>, 1)"
proof -
  let ?row = "\<lparr>Latitude = Some (Fin 1), Longitude = Some (Fin 2)\<rparr>"
  have f: "features [] = []" "features [?row] = [(Fin 1, Fin 2)]"
    by (simp_all add: features_def Number_def isNaN_def)
  note a = analyze_clamp [of 3 "[]" "\<lambda>s points k. (Inl KMeansError, s)" "\<lambda>_. Inl DelaunayError" "0::nat"]
  note b = analyze_clamp [of 0 "[?row]" "\<lambda>s points k. (Inl KMeansError, s)" "\<lambda>_. Inl DelaunayError" "0::nat"]
  note c = analyze_clamp [of 5 "[?row]" "\<lambda>s points k. (if k = 1 then Inr None else Inl KMeansError, Suc s)"
      "\<lambda>_. Inl DelaunayError" "0::nat"]
  show ?thesis
    using a b c by (simp add: f secondary_pass_def)
qed

section \<open>The secondary cluster count\<close>

lemma fourth_root_ge:
  fixes x :: real
  assumes "0 \<le> x"
  shows "(real k \<le> x powr 0.25) = (real k ^ 4 \<le> x)"
proof (cases "x = 0")
  case True
  then show ?thesis by (cases "k = 0") simp_all
next
  case False
  with assms have x: "0 < x" by simp
  have r: "x powr 0.25 = root 4 x"
    using root_powr_inverse [of 4 x] x by simp
  have "(real k \<le> root 4 x) = (root 4 (real k ^ 4) \<le> root 4 x)"
    by (simp add: real_root_power_cancel)
  also have "\<dots> = (real k ^ 4 \<le> x)" by (rule real_root_le_iff) simp
  finally show ?thesis by (simp only: r)
qed

lemma floor_fourth_root:
  "(\<lfloor>real m powr 0.25\<rfloor> = int k) = (k ^ 4 \<le> m \<and> m < (k + 1) ^ 4)"
proof -
  have a: "(real k \<le> real m powr 0.25) = (k ^ 4 \<le> m)"
    using fourth_root_ge [of "real m" k] by (simp flip: of_nat_power)
  have b: "(real (k + 1) \<le> real m powr 0.25) = ((k + 1) ^ 4 \<le> m)"
    using fourth_root_ge [of "real m" "k + 1"] by (simp flip: of_nat_power del: of_nat_add of_nat_Suc)
  have "(\<lfloor>real m powr 0.25\<rfloor> = int k) = (real k \<le> real m powr 0.25 \<and> real m powr 0.25 < real k + 1)"
    by (auto simp: floor_eq_iff)
  also have "\<dots> = (real k \<le> real m powr 0.25 \<and> \<not> real (k + 1) \<le> real m powr 0.25)"
    by (simp add: not_le add.commute)
  finally show ?thesis unfolding a b by (simp add: not_le)
qed

lemma subClusters_max: "subClusters m = max 1 \<lfloor>real m powr 0.25\<rfloor>"
  by (simp add: subClusters_def Let_def max_def)

lemma subClusters_eq:
  assumes "0 < k" "k ^ 4 \<le> m" "m < k' ^ 4" "k' = k + 1"
  shows "subClusters m = int k"
proof -
  from assms(2-4) floor_fourth_root [of m k] have "\<lfloor>real m powr 0.25\<rfloor> = int k" by blast
  with assms(1) show ?thesis by (simp add: subClusters_def)
qed

lemma subClusters_values:
  "subClusters 1 = 1" "subClusters 4 = 1" "subClusters 15 = 1" "subClusters 16 = 2" "subClusters 80 = 2"
  "subClusters 256 = 4"
proof -
  have k1: "(0::nat) < 1" "(2::nat) = 1 + 1" and k2: "(0::nat) < 2" "(3::nat) = 2 + 1"
    and k4: "(0::nat) < 4" "(5::nat) = 4 + 1"
    by simp_all
  have p1: "(1::nat) ^ 4 \<le> 1" "(1::nat) < 2 ^ 4" and p4: "(1::nat) ^ 4 \<le> 4" "(4::nat) < 2 ^ 4"
    and p15: "(1::nat) ^ 4 \<le> 15" "(15::nat) < 2 ^ 4" and p16: "(2::nat) ^ 4 \<le> 16" "(16::nat) < 3 ^ 4"
    and p80: "(2::nat) ^ 4 \<le> 80" "(80::nat) < 3 ^ 4"
    and p256: "(4::nat) ^ 4 \<le> 256" "(256::nat) < 5 ^ 4"
    by simp_all
  have i: "int 1 = 1" "int 2 = 2" "int 4 = 4" by simp_all
  show "subClusters 1 = 1" using subClusters_eq [OF k1(1) p1 k1(2)] by (simp only: i)
  show "subClusters 4 = 1" using subClusters_eq [OF k1(1) p4 k1(2)] by (simp only: i)
  show "subClusters 15 = 1" using subClusters_eq [OF k1(1) p15 k1(2)] by (simp only: i)
  show "subClusters 16 = 2" using subClusters_eq [OF k2(1) p16 k2(2)] by (simp only: i)
  show "subClusters 80 = 2" using subClusters_eq [OF k2(1) p80 k2(2)] by (simp only: i)
  show "subClusters 256 = 4" using subClusters_eq [OF k4(1) p256 k4(2)] by (simp only: i)
qed

text \<open>
  C5. The secondary clustering of a primary cluster with \<open>m\<close> points (at least four reach
  it) is asked for \<open>max 1 \<lfloor>m powr 0.25\<rfloor>\<close> clusters. The fourth root is floored, not
  rounded: 15 gives 1, 16 gives 2, 80 gives 2; and 1 gives 1.
\<close>

theorem subClusters_floor:
  "subClusters m = max 1 \<lfloor>real m powr 0.25\<rfloor> \<and>
   (4 \<le> length (clusterPoints data primaryClusters clusterId) \<longrightarrow>
      cluster_step kmeans delaunay data primaryClusters clusterId s =
        secondary_boundary delaunay
          (kmeans s (clusterPoints data primaryClusters clusterId)
             (max 1 \<lfloor>real (length (clusterPoints data primaryClusters clusterId)) powr 0.25\<rfloor>))) \<and>
   subClusters 16 = 2 \<and> subClusters 1 = 1 \<and> subClusters 15 = 1 \<and> subClusters 80 = 2"
proof (intro conjI impI)
  show "cluster_step kmeans delaunay data primaryClusters clusterId s =
        secondary_boundary delaunay
          (kmeans s (clusterPoints data primaryClusters clusterId)
             (max 1 \<lfloor>real (length (clusterPoints data primaryClusters clusterId)) powr 0.25\<rfloor>))"
    if "4 \<le> length (clusterPoints data primaryClusters clusterId)"
    unfolding subClusters_max [symmetric] using that by (simp add: cluster_step_def Let_def)
qed (rule subClusters_max subClusters_values)+

theorem subClusters_floor_witness:
  "cluster_step (\<lambda>s points k. (if k = 1 then Inr None else Inl KMeansError, Suc s)) (\<lambda>_. Inl DelaunayError)
     (replicate 4 \<lparr>Latitude = Some (Fin 1), Longitude = Some (Fin 2)\<rparr>) [0, 0, 0, 0] 0 (0::nat)
     = (Inr None, 1)"
proof -
  let ?data = "replicate 4 \<lparr>Latitude = Some (Fin 1), Longitude = Some (Fin 2)\<rparr>"
  have cp: "clusterPoints ?data [0, 0, 0, 0] 0 = replicate 4 (Fin 2, Fin 1)"
    by (simp add: clusterPoints_def enumerate_eq_zip Number_def numeral_eq_Suc upt_rec)
  note t = subClusters_floor [of 4 ?data "[0, 0, 0, 0]" 0
      "\<lambda>s points k. (if k = 1 then Inr None else Inl KMeansError, Suc s)" "\<lambda>_. Inl DelaunayError" "0::nat"]
  have k: "max 1 \<lfloor>real 4 powr 0.25\<rfloor> = 1"
    using t [THEN conjunct1] by (simp add: subClusters_values)
  have "4 \<le> length (clusterPoints ?data [0, 0, 0, 0] 0)" by (simp add: cp)
  from t [THEN conjunct2, THEN conjunct1, rule_format, OF this]
  show ?thesis
    using k by (simp add: cp secondary_boundary_def)
qed

section \<open>The loops of the secondary pass\<close>

subsection \<open>The assembly\<close>

lemma lt_index_number: "lt (index_number j) (index_number n) = (j < n)"
  by (simp add: index_number_def)

lemma at_index_number: "at_index xs (index_number j) = (if j < length xs then Some (xs ! j) else None)"
  by (simp add: at_index_def index_number_def)

lemma edge_loop_eq:
  "edge_loop centers (map edge_numbers edges) (los, las) =
     Inr (los @ map (lon_pair centers) (filter (in_range centers) edges),
          las @ map (lat_pair centers) (filter (in_range centers) edges))"
  by (induction edges arbitrary: los las)
    (auto simp: edge_numbers_def in_range_def lon_pair_def lat_pair_def lt_index_number at_index_number)

lemma assemble_eq:
  assumes "length Hcenters = length Pedges"
  shows "assemble Hcenters Pedges i (los, las) =
     Inr \<lparr>longs = los @ concat (map (\<lambda>(centers, edges). map (lon_pair centers) (filter (in_range centers) edges))
                                 (drop i (zip Hcenters Pedges))),
          lats = las @ concat (map (\<lambda>(centers, edges). map (lat_pair centers) (filter (in_range centers) edges))
                                 (drop i (zip Hcenters Pedges)))\<rparr>"
  using assms
proof (induction Hcenters Pedges i "(los, las)" arbitrary: los las rule: assemble.induct)
  case (1 Hcenters Pedges i los las)
  show ?case
  proof (cases "i < length Hcenters")
    case False
    then show ?thesis by (subst assemble.simps) simp
  next
    case True
    with "1.prems" have p: "i < length Pedges" by simp
    have d: "drop i (zip Hcenters Pedges) = (Hcenters ! i, Pedges ! i) # drop (Suc i) (zip Hcenters Pedges)"
      using True p by (simp add: Cons_nth_drop_Suc [symmetric])
    show ?thesis
      using "1.hyps" [OF True p edge_loop_eq "1.prems"] True p
      by (subst assemble.simps) (simp add: d edge_loop_eq)
  qed
qed

lemma assemble_Nil: "assemble [] [] 0 ([], []) = Inr \<lparr>longs = [], lats = []\<rparr>"
  by (subst assemble.simps) simp

subsection \<open>The loop over the primary clusters\<close>

lemma cluster_loop_groups:
  assumes "cluster_loop kmeans delaunay data pc cids s (H, P) = (Inr (H', P'), s')"
  shows "\<exists>gs. subseq (map fst gs) cids \<and> H' = H @ map (fst \<circ> snd) gs \<and> P' = P @ map (snd \<circ> snd) gs \<and>
           (\<forall>g \<in> set gs. \<exists>s0 s1. cluster_step kmeans delaunay data pc (fst g) s0 = (Inr (Some (snd g)), s1))"
  using assms
proof (induction cids arbitrary: s H P)
  case Nil
  then show ?case by (intro exI [of _ "[]"]) simp
next
  case (Cons cid cids)
  obtain r s1 where st: "cluster_step kmeans delaunay data pc cid s = (r, s1)" by (cases "cluster_step kmeans delaunay data pc cid s")
  show ?case
  proof (cases r)
    case (Inl e)
    with Cons.prems st show ?thesis by simp
  next
    case (Inr o1)
    show ?thesis
    proof (cases o1)
      case None
      with Cons.prems st Inr have "cluster_loop kmeans delaunay data pc cids s1 (H, P) = (Inr (H', P'), s')"
        by simp
      from Cons.IH [OF this] obtain gs where gs: "subseq (map fst gs) cids" "H' = H @ map (fst \<circ> snd) gs"
        "P' = P @ map (snd \<circ> snd) gs"
        "\<forall>g \<in> set gs. \<exists>s0 s1. cluster_step kmeans delaunay data pc (fst g) s0 = (Inr (Some (snd g)), s1)"
        by blast
      show ?thesis
        by (rule exI [of _ gs]) (use gs in \<open>simp add: list_emb_Cons\<close>)
    next
      case (Some ce)
      obtain centers edges where ce: "ce = (centers, edges)" by (cases ce)
      with Cons.prems st Inr Some
      have "cluster_loop kmeans delaunay data pc cids s1 (H @ [centers], P @ [edges]) = (Inr (H', P'), s')"
        by simp
      from Cons.IH [OF this] obtain gs where gs: "subseq (map fst gs) cids" "H' = (H @ [centers]) @ map (fst \<circ> snd) gs"
        "P' = (P @ [edges]) @ map (snd \<circ> snd) gs"
        "\<forall>g \<in> set gs. \<exists>s0 s1. cluster_step kmeans delaunay data pc (fst g) s0 = (Inr (Some (snd g)), s1)"
        by blast
      have "cluster_step kmeans delaunay data pc cid s = (Inr (Some (centers, edges)), s1)"
        using st Inr Some ce by simp
      then show ?thesis
        by (intro exI [of _ "(cid, centers, edges) # gs"]) (use gs in auto)
    qed
  qed
qed

subsection \<open>The distinct cluster ids\<close>

lemma fold_unique:
  "fold (\<lambda>c seen. if c \<in> set seen then seen else seen @ [c]) cs acc =
     acc @ filter (\<lambda>x. x \<notin> set acc) (uniqueClusters cs)"
proof (induction cs arbitrary: acc)
  case Nil
  show ?case by (simp add: uniqueClusters_def)
next
  case (Cons c cs)
  have u: "uniqueClusters (c # cs) = c # filter (\<lambda>x. x \<noteq> c) (uniqueClusters cs)"
    using Cons.IH [of "[c]"] by (simp add: uniqueClusters_def)
  show ?case
  proof (cases "c \<in> set acc")
    case True
    then have "filter (\<lambda>x. x \<notin> set acc) (filter (\<lambda>x. x \<noteq> c) (uniqueClusters cs)) =
        filter (\<lambda>x. x \<notin> set acc) (uniqueClusters cs)"
      by (auto intro: filter_cong)
    with True Cons.IH [of acc] show ?thesis by (simp add: u)
  next
    case False
    have "filter (\<lambda>x. x \<notin> set (acc @ [c])) (uniqueClusters cs) =
        filter (\<lambda>x. x \<notin> set acc) (filter (\<lambda>x. x \<noteq> c) (uniqueClusters cs))"
      by (auto intro: filter_cong)
    with False Cons.IH [of "acc @ [c]"] show ?thesis by (simp add: u)
  qed
qed

lemma uniqueClusters_Nil: "uniqueClusters [] = []"
  by (simp add: uniqueClusters_def)

lemma uniqueClusters_Cons: "uniqueClusters (c # cs) = c # removeAll c (uniqueClusters cs)"
proof -
  have "uniqueClusters (c # cs) = c # filter (\<lambda>x. x \<noteq> c) (uniqueClusters cs)"
    using fold_unique [of cs "[c]"] by (simp add: uniqueClusters_def)
  also have "filter (\<lambda>x. x \<noteq> c) (uniqueClusters cs) = removeAll c (uniqueClusters cs)"
    by (simp add: removeAll_filter_not_eq) (metis)
  finally show ?thesis .
qed

lemma uniqueClusters_replicate_append:
  "uniqueClusters (replicate (Suc n) c @ cs) = c # removeAll c (uniqueClusters cs)"
  by (induction n) (simp_all add: uniqueClusters_Cons)

subsection \<open>The points of one cluster\<close>

lemma clusterRows_zip:
  "map snd (filter (\<lambda>(idx, row). n \<le> idx \<and> idx < n + length pc \<and> pc ! (idx - n) = c) (enumerate n (data :: DataRow list))) =
     map fst (filter (\<lambda>(row, l). l = c) (zip data pc))"
proof (induction data arbitrary: n pc)
  case Nil
  show ?case by simp
next
  case (Cons row data)
  show ?case
  proof (cases pc)
    case Nil
    have "filter (\<lambda>(idx, row). n \<le> idx \<and> idx < n + length pc \<and> pc ! (idx - n) = c) (enumerate n (row # data)) = []"
      unfolding Nil by (rule filter_False) auto
    then show ?thesis by (simp add: Nil)
  next
    case (Cons l ls)
    define P where "P = (\<lambda>(idx, row :: DataRow). n \<le> idx \<and> idx < n + length (l # ls) \<and> (l # ls) ! (idx - n) = c)"
    have step: "filter P (enumerate (Suc n) data) =
          filter (\<lambda>(idx, row). Suc n \<le> idx \<and> idx < Suc n + length ls \<and> ls ! (idx - Suc n) = c) (enumerate (Suc n) data)"
      unfolding P_def
      by (rule filter_cong [OF refl]) (auto simp: in_set_enumerate_eq Suc_diff_le)
    have head: "P (n, row) = (l = c)" by (simp add: P_def)
    have "map snd (filter P (enumerate n (row # data))) =
        (if l = c then [row] else []) @ map snd (filter P (enumerate (Suc n) data))"
      by (simp add: head)
    also have "\<dots> = (if l = c then [row] else []) @ map fst (filter (\<lambda>(row, l). l = c) (zip data ls))"
      unfolding step Cons.IH [of "Suc n" ls] ..
    also have "\<dots> = map fst (filter (\<lambda>(row, l). l = c) (zip (row # data) (l # ls)))"
      by simp
    finally show ?thesis unfolding P_def Cons .
  qed
qed

lemma clusterPoints_zip:
  "clusterPoints data pc c =
     map (\<lambda>row. (Number (Longitude row), Number (Latitude row)))
       (map fst (filter (\<lambda>(row, l). l = c) (zip data pc)))"
  using clusterRows_zip [of 0 pc c data] by (simp add: clusterPoints_def)

subsection \<open>The example run\<close>

lemma sqrt2_lt_2: "sqrt 2 < (2::real)"
  by (rule real_less_lsqrt) simp_all

lemma alphaShape_square_at:
  "alphaShape example_delaunay (square_at x y) (Fin 1) True = Inr [(0, 1), (1, 2), (2, 3), (3, 0)]"
  by (simp add: alphaShape_def alphaShape_body_def example_delaunay_def nth_square_at(5)
      square_at_triangle sqrt2_lt_2 addEdge_def)

lemma features_append: "features (xs @ ys) = features xs @ features ys"
  by (simp add: features_def)

lemma features_replicate: "features (replicate n (row_at lat lon)) = replicate n (Fin lat, Fin lon)"
  by (simp add: features_def row_at_def Number_def isNaN_def filter_replicate)

lemma length_zone: "length (zone x y) = 256"
  by (simp add: zone_def)

lemma length_features_two_zones: "length (features two_zones) = 512"
  by (simp add: two_zones_def zone_def features_append features_replicate)

lemma clusterPoints_append:
  assumes "length xs = length ps"
  shows "clusterPoints (xs @ ys) (ps @ qs) c = clusterPoints xs ps c @ clusterPoints ys qs c"
  using assms by (simp add: clusterPoints_zip)

lemma clusterPoints_replicate:
  "clusterPoints data (replicate (length data) l) c =
     (if l = c then map (\<lambda>row. (Number (Longitude row), Number (Latitude row))) data else [])"
proof -
  have "zip data (replicate (length data) l) = map (\<lambda>row. (row, l)) data"
    by (simp add: zip_replicate2)
  then show ?thesis
    by (simp add: clusterPoints_zip filter_map o_def)
qed

lemma swap_zone:
  "map (\<lambda>row. (Number (Longitude row), Number (Latitude row))) (zone x y) =
     replicate 64 (Fin x, Fin y) @ replicate 64 (Fin (x + 1), Fin y) @
     replicate 64 (Fin (x + 1), Fin (y + 1)) @ replicate 64 (Fin x, Fin (y + 1))"
  by (simp add: zone_def row_at_def Number_def)

lemma clusterPoints_two_zones:
  "clusterPoints two_zones (replicate 256 (Suc 0) @ replicate 256 0) (Suc 0) =
     map (\<lambda>row. (Number (Longitude row), Number (Latitude row))) (zone 0 10)"
  "clusterPoints two_zones (replicate 256 (Suc 0) @ replicate 256 0) 0 =
     map (\<lambda>row. (Number (Longitude row), Number (Latitude row))) (zone 5 10)"
  using clusterPoints_replicate [of "zone 0 10"] clusterPoints_replicate [of "zone 5 10"]
  by (simp_all add: two_zones_def clusterPoints_append length_zone)

lemma secondary_zone:
  "secondary_boundary example_delaunay
     (example_kmeans s (map (\<lambda>row. (Number (Longitude row), Number (Latitude row))) (zone x y)) 4) =
     (Inr (Some (square_at x y, [(0, 1), (1, 2), (2, 3), (3, 0)])), Suc s)"
  by (simp add: secondary_boundary_def example_kmeans_def swap_zone nth_append square_at_def
      alphaShape_square_at [unfolded square_at_def])

lemma cluster_step_two_zones:
  "cluster_step example_kmeans example_delaunay two_zones (replicate 256 (Suc 0) @ replicate 256 0) (Suc 0) s =
     (Inr (Some (square_at 0 10, [(0, 1), (1, 2), (2, 3), (3, 0)])), Suc s)"
  "cluster_step example_kmeans example_delaunay two_zones (replicate 256 (Suc 0) @ replicate 256 0) 0 s =
     (Inr (Some (square_at 5 10, [(0, 1), (1, 2), (2, 3), (3, 0)])), Suc s)"
  unfolding cluster_step_def clusterPoints_two_zones Let_def
  by (simp_all add: length_zone subClusters_values secondary_zone)

lemma cluster_loop_two_zones:
  "cluster_loop example_kmeans example_delaunay two_zones (replicate 256 (Suc 0) @ replicate 256 0) [Suc 0, 0] s ([], []) =
     (Inr ([square_at 0 10, square_at 5 10], [[(0, 1), (1, 2), (2, 3), (3, 0)], [(0, 1), (1, 2), (2, 3), (3, 0)]]),
      Suc (Suc s))"
  by (simp add: cluster_step_two_zones)

lemma uniqueClusters_two_zones: "uniqueClusters (replicate 256 (Suc 0) @ replicate 256 0) = [Suc 0, 0]"
proof -
  have "uniqueClusters (replicate (Suc 255) (Suc 0) @ replicate (Suc 255) 0 @ []) = [Suc 0, 0]"
    unfolding uniqueClusters_replicate_append by (simp add: uniqueClusters_Nil)
  then show ?thesis by simp
qed

lemma assemble_two_zones:
  "assemble [square_at 0 10, square_at 5 10] [[(0, 1), (1, 2), (2, 3), (3, 0)], [(0, 1), (1, 2), (2, 3), (3, 0)]] 0 ([], []) =
     Inr \<lparr>longs = [[Fin 0, Fin 1], [Fin 1, Fin 1], [Fin 1, Fin 0], [Fin 0, Fin 0],
                   [Fin 5, Fin 6], [Fin 6, Fin 6], [Fin 6, Fin 5], [Fin 5, Fin 5]],
          lats = [[Fin 10, Fin 10], [Fin 10, Fin 11], [Fin 11, Fin 11], [Fin 11, Fin 10],
                  [Fin 10, Fin 10], [Fin 10, Fin 11], [Fin 11, Fin 11], [Fin 11, Fin 10]]\<rparr>"
  by (simp add: assemble_eq in_range_def lon_pair_def lat_pair_def nth_square_at)

lemma example_primary_clusters:
  "clusters example_primary = replicate 256 (Suc 0) @ replicate 256 0"
  by (simp add: example_primary_def)

lemma example_kmeans_primary:
  "example_kmeans s (features two_zones) (min 2 (int (length (features two_zones)))) =
     (Inr (Some example_primary), Suc s)"
  by (simp add: example_kmeans_def length_features_two_zones)

lemma analyze_two_zones:
  "analyze example_kmeans example_delaunay two_zones 2 s = (Inr two_zones_boundary, Suc (Suc (Suc s)))"
proof -
  have a: "analyze example_kmeans example_delaunay two_zones 2 s =
      secondary_pass example_kmeans example_delaunay two_zones
        (example_kmeans s (features two_zones) (min 2 (int (length (features two_zones)))))"
    by (simp add: analyze_def Let_def length_features_two_zones)
  have sp: "secondary_pass example_kmeans example_delaunay two_zones (Inr (Some example_primary), s1) =
      (assemble [square_at 0 10, square_at 5 10]
         [[(0, 1), (1, 2), (2, 3), (3, 0)], [(0, 1), (1, 2), (2, 3), (3, 0)]] 0 ([], []), Suc (Suc s1))" for s1
    by (simp add: secondary_pass_def example_primary_clusters uniqueClusters_two_zones cluster_loop_two_zones
        del: cluster_loop.simps)
  show ?thesis
    unfolding a example_kmeans_primary sp assemble_two_zones two_zones_boundary_def ..
qed

subsection \<open>The example run from another ambient state\<close>












section \<open>Properties of the secondary pass and the assembly\<close>

lemma subClusters_four: "subClusters (Suc (Suc (Suc (Suc 0)))) = 1"
  using subClusters_values(2) by (simp add: eval_nat_numeral)

text \<open>
  C2 (the code differs). The primary labels are indexed by position in the filtered
  feature list, but the points of a cluster are picked by position in the unfiltered
  data. With an invalid record (latitude \<open>NaN\<close>) in front of four valid ones and one
  cluster requested, the four valid points are all labelled 0, and the list handed to the
  secondary clustering of cluster 0 (the second call the clustering receives) starts with
  the invalid record and misses the last valid point.
\<close>

theorem clusterPoints_misaligned:
  "features [\<lparr>Latitude = Some NaN, Longitude = Some (Fin 10)\<rparr>, row_at 1 11, row_at 2 12, row_at 3 13, row_at 4 14]
     = [(Fin 1, Fin 11), (Fin 2, Fin 12), (Fin 3, Fin 13), (Fin 4, Fin 14)] \<and>
   clusterPoints [\<lparr>Latitude = Some NaN, Longitude = Some (Fin 10)\<rparr>, row_at 1 11, row_at 2 12, row_at 3 13, row_at 4 14]
       [0, 0, 0, 0] 0
     = [(Fin 10, NaN), (Fin 11, Fin 1), (Fin 12, Fin 2), (Fin 13, Fin 3)] \<and>
   snd (analyze (\<lambda>s points k. (Inr (Some \<lparr>clusters = replicate (length points) 0,
                                              centroids = [Bare (points ! 0)]\<rparr>), s @ [(points, k)]))
          example_delaunay
          [\<lparr>Latitude = Some NaN, Longitude = Some (Fin 10)\<rparr>, row_at 1 11, row_at 2 12, row_at 3 13, row_at 4 14]
          1 [])
     = [([(Fin 1, Fin 11), (Fin 2, Fin 12), (Fin 3, Fin 13), (Fin 4, Fin 14)], 1),
        ([(Fin 10, NaN), (Fin 11, Fin 1), (Fin 12, Fin 2), (Fin 13, Fin 3)], 1)]"
proof -
  let ?data = "[\<lparr>Latitude = Some NaN, Longitude = Some (Fin 10)\<rparr>, row_at 1 11, row_at 2 12, row_at 3 13, row_at 4 14]"
  let ?km = "\<lambda>s points k. (Inr (Some \<lparr>clusters = replicate (length points) 0,
                                          centroids = [Bare (points ! 0)]\<rparr>), s @ [(points, k :: int)])"
  have f: "features ?data = [(Fin 1, Fin 11), (Fin 2, Fin 12), (Fin 3, Fin 13), (Fin 4, Fin 14)]"
    by (simp add: features_def row_at_def Number_def isNaN_def)
  have c: "clusterPoints ?data [0, 0, 0, 0] 0 = [(Fin 10, NaN), (Fin 11, Fin 1), (Fin 12, Fin 2), (Fin 13, Fin 3)]"
    by (simp add: clusterPoints_zip row_at_def Number_def)
  have u: "uniqueClusters [0, 0, 0, 0] = [0]"
    by (simp add: uniqueClusters_Cons uniqueClusters_Nil)
  have st: "cluster_step ?km example_delaunay ?data [0, 0, 0, 0] 0 s =
      (Inr None, s @ [([(Fin 10, NaN), (Fin 11, Fin 1), (Fin 12, Fin 2), (Fin 13, Fin 3)], 1)])" for s
    unfolding cluster_step_def c Let_def
    by (simp add: subClusters_four secondary_boundary_def)
  have a: "snd (analyze ?km example_delaunay ?data 1 []) =
      [([(Fin 1, Fin 11), (Fin 2, Fin 12), (Fin 3, Fin 13), (Fin 4, Fin 14)], 1),
       ([(Fin 10, NaN), (Fin 11, Fin 1), (Fin 12, Fin 2), (Fin 13, Fin 3)], 1)]"
    unfolding analyze_def f Let_def
    by (simp add: secondary_pass_def u st assemble_Nil)
  show ?thesis by (intro conjI f c a)
qed

subsection \<open>Independence of the ambient state\<close>











subsection \<open>The indices of the edges\<close>

lemma addEdge_subset: "set (addEdge onlyOuter edges i j) \<subseteq> insert (i, j) (set edges)"
  by (auto simp: addEdge_def)

lemma triangle_loop_in_range:
  assumes "\<forall>e \<in> set edges. in_range points e"
    and "triangle_loop points alpha onlyOuter ts edges = Inr es"
  shows "\<forall>e \<in> set es. in_range points e"
  using assms
proof (induction points alpha onlyOuter ts edges rule: triangle_loop.induct)
  case (1 points alpha onlyOuter edges)
  then show ?case by simp
next
  case (2 points alpha onlyOuter ia ib ic rest edges)
  let ?e = "addEdge onlyOuter (addEdge onlyOuter (addEdge onlyOuter edges ia ib) ib ic) ic ia"
  from "2.prems"(2) have r: "ia < length points \<and> ib < length points \<and> ic < length points"
    by (simp split: if_splits)
  have "set ?e \<subseteq> insert (ic, ia) (insert (ib, ic) (insert (ia, ib) (set edges)))"
    using addEdge_subset [of onlyOuter "addEdge onlyOuter (addEdge onlyOuter edges ia ib) ib ic" ic ia]
      addEdge_subset [of onlyOuter "addEdge onlyOuter edges ia ib" ib ic]
      addEdge_subset [of onlyOuter edges ia ib]
    by blast
  with r "2.prems"(1) have e: "\<forall>e \<in> set ?e. in_range points e"
    by (auto simp: in_range_def)
  show ?case
  proof (cases "area (points ! ia) (points ! ib) (points ! ic) = Fin 0")
    case True
    with r "2.prems" "2.IH"(1) show ?thesis by simp
  next
    case False
    show ?thesis
    proof (cases "lt (circum_r (points ! ia) (points ! ib) (points ! ic)) alpha")
      case True
      with r False "2.prems"(2) "2.IH"(2) [OF r False True e] show ?thesis by simp
    next
      case n: False
      with r False "2.prems" "2.IH"(3) show ?thesis by simp
    qed
  qed
qed simp_all

lemma alphaShape_in_range:
  assumes "alphaShape delaunay points alpha onlyOuter = Inr es"
  shows "\<forall>e \<in> set es. in_range points e"
proof (cases "length points < 4")
  case True
  with assms show ?thesis by (simp add: alphaShape_def)
next
  case False
  show ?thesis
  proof (cases "alphaShape_body delaunay points alpha onlyOuter")
    case (Inl e)
    with False assms show ?thesis by (simp add: alphaShape_def)
  next
    case (Inr r)
    with False assms have r: "r = es" by (simp add: alphaShape_def)
    from Inr obtain ts where "triangle_loop points alpha onlyOuter ts [] = Inr es"
      unfolding r by (auto simp: alphaShape_body_def split: sum.splits)
    from triangle_loop_in_range [OF _ this] show ?thesis by simp
  qed
qed

lemma cluster_step_in_range:
  assumes "cluster_step kmeans delaunay data pc cid s = (Inr (Some (centers, edges)), s')"
  shows "\<forall>e \<in> set edges. in_range centers e"
proof -
  from assms have "\<exists>alpha. alphaShape delaunay centers alpha True = Inr edges"
    by (auto simp: cluster_step_def secondary_boundary_def Let_def
        split: if_splits prod.splits sum.splits option.splits)
  then show ?thesis using alphaShape_in_range by blast
qed

subsection \<open>What analyze returns\<close>

lemma cluster_loop_lengths:
  assumes "cluster_loop kmeans delaunay data pc cids s ([], []) = (Inr (H, P), s')"
  shows "length H = length P"
  using cluster_loop_groups [OF assms] by auto

lemma analyze_loop:
  assumes "analyze kmeans delaunay data nCluster s = (Inr b, s')"
  shows "b = \<lparr>longs = [], lats = []\<rparr> \<or>
         (\<exists>primaryResult s1 H P.
            kmeans s (features data) (min nCluster (int (length (features data)))) = (Inr (Some primaryResult), s1) \<and>
            cluster_loop kmeans delaunay data (clusters primaryResult) (uniqueClusters (clusters primaryResult)) s1 ([], [])
              = (Inr (H, P), s') \<and>
            assemble H P 0 ([], []) = Inr b)"
proof (cases "min nCluster (int (length (features data))) < 1 \<or> length (features data) < 1")
  case True
  with assms show ?thesis by (auto simp: analyze_def Let_def)
next
  case False
  obtain r s1 where k: "kmeans s (features data) (min nCluster (int (length (features data)))) = (r, s1)"
    by (cases "kmeans s (features data) (min nCluster (int (length (features data))))")
  from False assms k have sp: "secondary_pass kmeans delaunay data (r, s1) = (Inr b, s')"
    by (simp add: analyze_def Let_def)
  show ?thesis
  proof (cases r)
    case (Inl e)
    with sp show ?thesis by (simp add: secondary_pass_def)
  next
    case (Inr res)
    show ?thesis
    proof (cases res)
      case None
      with sp Inr show ?thesis by (simp add: secondary_pass_def)
    next
      case (Some pr)
      obtain x s2 where l: "cluster_loop kmeans delaunay data (clusters pr) (uniqueClusters (clusters pr)) s1 ([], []) = (x, s2)"
        by (cases "cluster_loop kmeans delaunay data (clusters pr) (uniqueClusters (clusters pr)) s1 ([], [])")
      show ?thesis
      proof (cases x)
        case (Inl e)
        with sp Inr Some l show ?thesis by (simp add: secondary_pass_def Let_def)
      next
        case HP: (Inr hp)
        obtain H P where hp: "hp = (H, P)" by (cases hp)
        from sp Inr Some l HP hp have "assemble H P 0 ([], []) = Inr b" "s2 = s'"
          by (simp_all add: secondary_pass_def Let_def)
        with k Inr Some l HP hp show ?thesis by blast
      qed
    qed
  qed
qed

lemma analyze_cases:
  assumes "analyze kmeans delaunay data nCluster s = (Inr b, s')"
  shows "b = \<lparr>longs = [], lats = []\<rparr> \<or>
         (\<exists>primaryResult s1 H P s2.
            kmeans s (features data) (min nCluster (int (length (features data)))) = (Inr (Some primaryResult), s1) \<and>
            cluster_loop kmeans delaunay data (clusters primaryResult) (uniqueClusters (clusters primaryResult)) s1 ([], [])
              = (Inr (H, P), s2) \<and>
            assemble H P 0 ([], []) = Inr b)"
  using analyze_loop [OF assms] by blast

lemma cluster_loop_in_range:
  assumes "cluster_loop kmeans delaunay data pc cids s ([], []) = (Inr (H, P), s')"
  shows "\<forall>g < length H. \<forall>e \<in> set (P ! g). in_range (H ! g) e"
proof (intro allI impI)
  fix g
  assume g: "g < length H"
  from cluster_loop_groups [OF assms] obtain gs where
    gs: "H = [] @ map (fst \<circ> snd) gs" "P = [] @ map (snd \<circ> snd) gs"
      "\<forall>g \<in> set gs. \<exists>s0 s1. cluster_step kmeans delaunay data pc (fst g) s0 = (Inr (Some (snd g)), s1)"
    by blast
  from g gs(1) have l: "g < length gs" by simp
  then have "gs ! g \<in> set gs" by simp
  with gs(3) obtain s0 s1 where "cluster_step kmeans delaunay data pc (fst (gs ! g)) s0 = (Inr (Some (snd (gs ! g))), s1)"
    by blast
  moreover have "snd (gs ! g) = (H ! g, P ! g)"
    using l by (simp add: gs(1,2) prod_eq_iff)
  ultimately have "cluster_step kmeans delaunay data pc (fst (gs ! g)) s0 = (Inr (Some (H ! g, P ! g)), s1)"
    by simp
  then show "\<forall>e \<in> set (P ! g). in_range (H ! g) e" by (rule cluster_step_in_range)
qed

lemma assemble_all_in_range:
  assumes "length H = length P" "\<forall>g < length H. \<forall>e \<in> set (P ! g). in_range (H ! g) e"
  shows "assemble H P 0 ([], []) =
     Inr \<lparr>longs = concat (map2 (\<lambda>centers edges. map (lon_pair centers) edges) H P),
          lats = concat (map2 (\<lambda>centers edges. map (lat_pair centers) edges) H P)\<rparr>"
proof -
  have f: "filter (in_range c) es = es" if "(c, es) \<in> set (zip H P)" for c es
  proof -
    from that obtain g where "g < length H" "H ! g = c" "P ! g = es"
      by (auto simp: in_set_zip)
    with assms(2) have "\<forall>e \<in> set es. in_range c e" by blast
    then show ?thesis by (rule filter_True)
  qed
  have e: "map (\<lambda>(centers, edges). map (lon_pair centers) (filter (in_range centers) edges)) (zip H P) =
        map2 (\<lambda>centers edges. map (lon_pair centers) edges) H P"
    "map (\<lambda>(centers, edges). map (lat_pair centers) (filter (in_range centers) edges)) (zip H P) =
        map2 (\<lambda>centers edges. map (lat_pair centers) edges) H P"
    by (rule map_cong [OF refl]; use f in auto)+
  show ?thesis
    unfolding assemble_eq [OF assms(1)] drop_0 e append_Nil ..
qed

text \<open>
  C10 (as amended). Whenever \<open>analyze\<close> returns a boundary, its two sequences have the same
  length. Unless the boundary is empty, the sequences are made from the centroid sets and
  edge lists that the loop over the primary clusters of this run collected, group after
  group and edge after edge: every edge has both endpoints in range, and for the edge at
  position \<open>p\<close> the entry of \<open>longs\<close> is the pair of the longitudes (first coordinates) of its
  two endpoints and the entry of \<open>lats\<close> the pair of their latitudes (second coordinates).
\<close>

theorem analyze_parallel_sequences:
  assumes "analyze kmeans delaunay data nCluster s = (Inr b, s')"
  shows "length (longs b) = length (lats b) \<and>
         (b = \<lparr>longs = [], lats = []\<rparr> \<or>
          (\<exists>primaryResult s1 Hcenters Pedges.
             kmeans s (features data) (min nCluster (int (length (features data)))) = (Inr (Some primaryResult), s1) \<and>
             cluster_loop kmeans delaunay data (clusters primaryResult) (uniqueClusters (clusters primaryResult)) s1 ([], [])
               = (Inr (Hcenters, Pedges), s') \<and>
             length Hcenters = length Pedges \<and>
             (\<forall>g < length Hcenters. \<forall>e \<in> set (Pedges ! g). in_range (Hcenters ! g) e) \<and>
             longs b = concat (map2 (\<lambda>centers edges. map (lon_pair centers) edges) Hcenters Pedges) \<and>
             lats b = concat (map2 (\<lambda>centers edges. map (lat_pair centers) edges) Hcenters Pedges)))"
proof -
  let ?tied = "\<exists>primaryResult s1 Hcenters Pedges.
             kmeans s (features data) (min nCluster (int (length (features data)))) = (Inr (Some primaryResult), s1) \<and>
             cluster_loop kmeans delaunay data (clusters primaryResult) (uniqueClusters (clusters primaryResult)) s1 ([], [])
               = (Inr (Hcenters, Pedges), s') \<and>
             length Hcenters = length Pedges \<and>
             (\<forall>g < length Hcenters. \<forall>e \<in> set (Pedges ! g). in_range (Hcenters ! g) e) \<and>
             longs b = concat (map2 (\<lambda>centers edges. map (lon_pair centers) edges) Hcenters Pedges) \<and>
             lats b = concat (map2 (\<lambda>centers edges. map (lat_pair centers) edges) Hcenters Pedges)"
  from analyze_loop [OF assms] have t: "b = \<lparr>longs = [], lats = []\<rparr> \<or> ?tied"
  proof (elim disjE exE conjE)
    assume "b = \<lparr>longs = [], lats = []\<rparr>"
    then show ?thesis ..
  next
    fix pr s1 H P
    assume k: "kmeans s (features data) (min nCluster (int (length (features data)))) = (Inr (Some pr), s1)"
      and l: "cluster_loop kmeans delaunay data (clusters pr) (uniqueClusters (clusters pr)) s1 ([], []) = (Inr (H, P), s')"
      and a: "assemble H P 0 ([], []) = Inr b"
    note len = cluster_loop_lengths [OF l]
    note r = cluster_loop_in_range [OF l]
    from a have "longs b = concat (map2 (\<lambda>centers edges. map (lon_pair centers) edges) H P)"
      "lats b = concat (map2 (\<lambda>centers edges. map (lat_pair centers) edges) H P)"
      unfolding assemble_all_in_range [OF len r] by auto
    with k l len r have ?tied by blast
    then show ?thesis ..
  qed
  have "length (longs b) = length (lats b)"
    using t
  proof
    assume "b = \<lparr>longs = [], lats = []\<rparr>"
    then show ?thesis by simp
  next
    assume ?tied
    then obtain H P where "longs b = concat (map2 (\<lambda>centers edges. map (lon_pair centers) edges) H P)"
      "lats b = concat (map2 (\<lambda>centers edges. map (lat_pair centers) edges) H P)"
      by blast
    then show ?thesis by (simp add: length_concat o_def case_prod_unfold)
  qed
  from this t show ?thesis by (rule conjI)
qed

theorem analyze_parallel_sequences_witness:
  "length (longs two_zones_boundary) = length (lats two_zones_boundary) \<and>
   (two_zones_boundary = \<lparr>longs = [], lats = []\<rparr> \<or>
    (\<exists>primaryResult s1 Hcenters Pedges.
       example_kmeans 0 (features two_zones) (min 2 (int (length (features two_zones)))) = (Inr (Some primaryResult), s1) \<and>
       cluster_loop example_kmeans example_delaunay two_zones (clusters primaryResult)
         (uniqueClusters (clusters primaryResult)) s1 ([], []) = (Inr (Hcenters, Pedges), Suc (Suc (Suc 0))) \<and>
       length Hcenters = length Pedges \<and>
       (\<forall>g < length Hcenters. \<forall>e \<in> set (Pedges ! g). in_range (Hcenters ! g) e) \<and>
       longs two_zones_boundary = concat (map2 (\<lambda>centers edges. map (lon_pair centers) edges) Hcenters Pedges) \<and>
       lats two_zones_boundary = concat (map2 (\<lambda>centers edges. map (lat_pair centers) edges) Hcenters Pedges)))"
  by (rule analyze_parallel_sequences [OF analyze_two_zones [of 0]])

theorem analyze_pairs_counterexample:
  "analyze example_kmeans example_delaunay two_zones 2 0 = (Inr two_zones_boundary, 3) \<and>
   longs two_zones_boundary ! 0 = [Fin 0, Fin 1] \<and> lats two_zones_boundary ! 0 = [Fin 10, Fin 10] \<and>
   \<not> (\<forall>p < length (longs two_zones_boundary).
        \<exists>c \<in> set (square_at 0 10) \<union> set (square_at 5 10). longs two_zones_boundary ! p = [fst c, snd c])"
proof -
  have a: "analyze example_kmeans example_delaunay two_zones 2 0 = (Inr two_zones_boundary, 3)"
    using analyze_two_zones [of 0] by (simp add: numeral_3_eq_3)
  have n: "\<not> (\<exists>c \<in> set (square_at 0 10) \<union> set (square_at 5 10). longs two_zones_boundary ! 0 = [fst c, snd c])"
    by (simp add: two_zones_boundary_def square_at_def)
  have "\<not> (\<forall>p < length (longs two_zones_boundary).
        \<exists>c \<in> set (square_at 0 10) \<union> set (square_at 5 10). longs two_zones_boundary ! p = [fst c, snd c])"
  proof
    assume "\<forall>p < length (longs two_zones_boundary).
        \<exists>c \<in> set (square_at 0 10) \<union> set (square_at 5 10). longs two_zones_boundary ! p = [fst c, snd c]"
    moreover have "0 < length (longs two_zones_boundary)" by (simp add: two_zones_boundary_def)
    ultimately have "\<exists>c \<in> set (square_at 0 10) \<union> set (square_at 5 10). longs two_zones_boundary ! 0 = [fst c, snd c]"
      by blast
    with n show False ..
  qed
  moreover have "longs two_zones_boundary ! 0 = [Fin 0, Fin 1]" "lats two_zones_boundary ! 0 = [Fin 10, Fin 10]"
    by (simp_all add: two_zones_boundary_def)
  ultimately show ?thesis using a by blast
qed




section \<open>Further properties\<close>

lemma features_all_valid:
  assumes "length (features data) = length data"
  shows "features data = map (\<lambda>row. (Number (Latitude row), Number (Longitude row))) data"
proof -
  let ?P = "\<lambda>row. Latitude row \<noteq> None \<and> Longitude row \<noteq> None \<and>
                   \<not> isNaN (Number (Latitude row)) \<and> \<not> isNaN (Number (Longitude row))"
  from assms have "length (filter ?P data) = length data" by (simp add: features_def)
  then have "\<forall>row \<in> set data. ?P row"
    using length_filter_less [of _ data ?P] by (metis less_irrefl)
  then have "filter ?P data = data" by (rule filter_True)
  then show ?thesis by (simp add: features_def)
qed

text \<open>
  When the filter drops no record, the points handed to the secondary clustering of a
  cluster are exactly the feature points that carry its label, in order, with the two
  coordinates swapped.
\<close>

theorem clusterPoints_aligned:
  assumes "length (features data) = length data"
  shows "clusterPoints data primaryClusters clusterId =
           map (\<lambda>(lat, lon). (lon, lat))
             (map fst (filter (\<lambda>(p, l). l = clusterId) (zip (features data) primaryClusters)))"
proof -
  let ?f = "\<lambda>row. (Number (Latitude row), Number (Longitude row))"
  have z: "zip (map ?f data) primaryClusters = map (\<lambda>(row, l). (?f row, l)) (zip data primaryClusters)"
    by (simp add: zip_map1)
  show ?thesis
    unfolding clusterPoints_zip features_all_valid [OF assms] z
    by (simp add: filter_map o_def case_prod_unfold)
qed

theorem clusterPoints_aligned_witness:
  "clusterPoints [row_at 1 11, row_at 2 12, row_at 3 13] [0, 1, 0] 0 = [(Fin 11, Fin 1), (Fin 13, Fin 3)]"
proof -
  have f: "features [row_at 1 11, row_at 2 12, row_at 3 13] = [(Fin 1, Fin 11), (Fin 2, Fin 12), (Fin 3, Fin 13)]"
    by (simp add: features_def row_at_def Number_def isNaN_def)
  then have "length (features [row_at 1 11, row_at 2 12, row_at 3 13]) = length [row_at 1 11, row_at 2 12, row_at 3 13]"
    by simp
  from clusterPoints_aligned [OF this, of "[0, 1, 0]" 0] show ?thesis
    by (simp add: f)
qed

subsection \<open>The index guard of the assembly\<close>

text \<open>
  What the inner loop of the assembly does with an edge, by its indices. An edge with an
  index that is not less than the number of centroids (or is \<open>NaN\<close>) fails the guard and
  is passed over: no entry is pushed for it and the loop goes on. An edge whose indices
  are both less than the number of centroids, one of them without a centroid (a negative
  index, or one that is not a whole number), passes the guard and the loop ends in a
  type error.
\<close>

lemma edge_loop_skips:
  assumes "\<not> (lt j (index_number (length centers)) \<and> lt k (index_number (length centers)))"
  shows "edge_loop centers ((j, k) # edges) out = edge_loop centers edges out"
  using assms by (cases out) auto

lemma edge_loop_raises:
  assumes "lt j (index_number (length centers))" "lt k (index_number (length centers))"
    and "at_index centers j = None \<or> at_index centers k = None"
  shows "edge_loop centers ((j, k) # edges) out = Inl TypeError"
  using assms by (cases out) (auto split: option.splits)

lemma edge_loop_examples:
  "edge_loop square [(Fin 0, Fin 9), (Fin 0, Fin 1)] ([], []) = Inr ([[Fin 0, Fin 1]], [[Fin 0, Fin 0]])"
  "edge_loop square [(Fin 0, NaN), (Fin 0, Fin 1)] ([], []) = Inr ([[Fin 0, Fin 1]], [[Fin 0, Fin 0]])"
  "edge_loop square [(Fin (- 1), Fin 0), (Fin 0, Fin 1)] ([], []) = Inl TypeError"
  "edge_loop square [(Fin 0, Fin (1 / 2)), (Fin 0, Fin 1)] ([], []) = Inl TypeError"
  "edge_loop square [(NegInf, Fin 0), (Fin 0, Fin 1)] ([], []) = Inl TypeError"
  by (simp_all add: square_def index_number_def at_index_def)

text \<open>
  In a run of \<open>analyze\<close> neither happens. The edge lists that the loop over the primary
  clusters collects come from \<open>alphaShape\<close>, which registers an edge only after it has
  read the points of both indices: every edge has both indices in range, the assembly
  pushes one entry for each edge, and it returns without an error.
\<close>

lemma assemble_after_cluster_loop:
  assumes "cluster_loop kmeans delaunay data pc cids s ([], []) = (Inr (H, P), s')"
  shows "length H = length P \<and> (\<forall>g < length H. \<forall>e \<in> set (P ! g). in_range (H ! g) e) \<and>
         (\<exists>b. assemble H P 0 ([], []) = Inr b \<and> length (longs b) = length (concat P) \<and>
              length (lats b) = length (concat P))"
proof -
  note len = cluster_loop_lengths [OF assms]
  note r = cluster_loop_in_range [OF assms]
  have "length (concat (map2 (\<lambda>centers edges. map (f centers) edges) H P)) = length (concat P)"
    for f :: "point list \<Rightarrow> edge \<Rightarrow> number list"
    using len by (induction H P rule: list_induct2) simp_all
  then show ?thesis
    using len r by (simp add: assemble_all_in_range [OF len r])
qed

subsection \<open>The edge map\<close>

lemma addEdge_dedup:
  assumes "distinct edges \<and> (\<forall>i j. (i, j) \<in> set edges \<and> (j, i) \<in> set edges \<longrightarrow> i = j)"
  shows "distinct (addEdge onlyOuter edges a b) \<and>
         (\<forall>i j. (i, j) \<in> set (addEdge onlyOuter edges a b) \<and> (j, i) \<in> set (addEdge onlyOuter edges a b) \<longrightarrow> i = j)"
  using assms by (auto simp: addEdge_def distinct_removeAll)

lemma triangle_loop_dedup:
  assumes "distinct edges \<and> (\<forall>i j. (i, j) \<in> set edges \<and> (j, i) \<in> set edges \<longrightarrow> i = j)"
    and "triangle_loop points alpha onlyOuter ts edges = Inr es"
  shows "distinct es \<and> (\<forall>i j. (i, j) \<in> set es \<and> (j, i) \<in> set es \<longrightarrow> i = j)"
  using assms
proof (induction points alpha onlyOuter ts edges rule: triangle_loop.induct)
  case (1 points alpha onlyOuter edges)
  then show ?case by simp
next
  case (2 points alpha onlyOuter ia ib ic rest edges)
  let ?e = "addEdge onlyOuter (addEdge onlyOuter (addEdge onlyOuter edges ia ib) ib ic) ic ia"
  have e: "distinct ?e \<and> (\<forall>i j. (i, j) \<in> set ?e \<and> (j, i) \<in> set ?e \<longrightarrow> i = j)"
    by (intro addEdge_dedup "2.prems"(1))
  from "2.prems"(2) have r: "ia < length points \<and> ib < length points \<and> ic < length points"
    by (simp split: if_splits)
  show ?case
  proof (cases "area (points ! ia) (points ! ib) (points ! ic) = Fin 0")
    case True
    with r "2.prems" "2.IH"(1) show ?thesis by simp
  next
    case False
    show ?thesis
    proof (cases "lt (circum_r (points ! ia) (points ! ib) (points ! ic)) alpha")
      case True
      with r False "2.prems"(2) "2.IH"(2) [OF r False True e] show ?thesis by simp
    next
      case n: False
      with r False "2.prems" "2.IH"(3) show ?thesis by simp
    qed
  qed
qed simp_all

text \<open>
  The edge list that \<open>alphaShape\<close> returns has no edge twice, in the same or in the
  opposite direction.
\<close>

theorem alphaShape_edges_deduplicated:
  assumes "alphaShape delaunay points alpha onlyOuter = Inr es"
  shows "distinct es \<and> (\<forall>i j. (i, j) \<in> set es \<and> (j, i) \<in> set es \<longrightarrow> i = j)"
proof (cases "length points < 4")
  case True
  with assms show ?thesis by (simp add: alphaShape_def)
next
  case False
  show ?thesis
  proof (cases "alphaShape_body delaunay points alpha onlyOuter")
    case (Inl e)
    with False assms show ?thesis by (simp add: alphaShape_def)
  next
    case (Inr r)
    with False assms have r: "r = es" by (simp add: alphaShape_def)
    from Inr obtain ts where "triangle_loop points alpha onlyOuter ts [] = Inr es"
      unfolding r by (auto simp: alphaShape_body_def split: sum.splits)
    from triangle_loop_dedup [OF _ this] show ?thesis by simp
  qed
qed

theorem alphaShape_edges_deduplicated_witness:
  "alphaShape example_delaunay square (Fin 10) True = Inr [(0, 1), (1, 2), (2, 3), (3, 0)] \<and>
   distinct [(0::nat, 1::nat), (1, 2), (2, 3), (3, 0)] \<and>
   (\<forall>i j. (i, j) \<in> set [(0::nat, 1::nat), (1, 2), (2, 3), (3, 0)] \<and>
           (j, i) \<in> set [(0, 1), (1, 2), (2, 3), (3, 0)] \<longrightarrow> i = j)"
proof -
  have e: "alphaShape example_delaunay square (Fin 10) True = Inr [(0, 1), (1, 2), (2, 3), (3, 0)]"
    by (simp add: alphaShape_def alphaShape_body_def example_delaunay_def len_square square_triangle
        sqrt2_lt_20 addEdge_def)
  from alphaShape_edges_deduplicated [OF e] e show ?thesis by (intro conjI) blast+
qed

subsection \<open>Too few secondary centroids\<close>

lemma few_centroids_step:
  assumes "\<forall>s points k r s'. kmeans s points k = (Inr (Some r), s') \<longrightarrow> length (centroids r) < 4"
  shows "cluster_step kmeans delaunay data pc cid s \<noteq> (Inr (Some g), s')"
proof (cases "length (clusterPoints data pc cid) < 4")
  case True
  then show ?thesis by (simp add: cluster_step_def)
next
  case False
  obtain r t where k: "kmeans s (clusterPoints data pc cid) (subClusters (length (clusterPoints data pc cid))) = (r, t)"
    by (cases "kmeans s (clusterPoints data pc cid) (subClusters (length (clusterPoints data pc cid)))")
  show ?thesis
  proof (cases r)
    case (Inl e)
    with False k show ?thesis by (simp add: cluster_step_def secondary_boundary_def)
  next
    case (Inr res)
    show ?thesis
    proof (cases res)
      case None
      with False k Inr show ?thesis by (simp add: cluster_step_def secondary_boundary_def)
    next
      case (Some kr)
      with assms k Inr have "length (centroids kr) < 4" by blast
      with False k Inr Some show ?thesis by (simp add: cluster_step_def secondary_boundary_def)
    qed
  qed
qed

text \<open>
  When every clustering returns fewer than four centroids (as it does when every primary
  cluster has fewer than 256 points, so that fewer than four are asked for), no cluster
  has a boundary: a boundary that \<open>analyze\<close> returns is empty.
\<close>

theorem few_centroids_no_boundary:
  assumes "\<forall>s points k r s'. kmeans s points k = (Inr (Some r), s') \<longrightarrow> length (centroids r) < 4"
    and "analyze kmeans delaunay data nCluster s = (Inr b, s')"
  shows "b = \<lparr>longs = [], lats = []\<rparr>"
  using analyze_cases [OF assms(2)]
proof (elim disjE exE conjE)
  fix pr t1 H P t2
  assume l: "cluster_loop kmeans delaunay data (clusters pr) (uniqueClusters (clusters pr)) t1 ([], []) = (Inr (H, P), t2)"
    and a: "assemble H P 0 ([], []) = Inr b"
  from cluster_loop_groups [OF l] obtain gs where
    gs: "H = [] @ map (fst \<circ> snd) gs" "P = [] @ map (snd \<circ> snd) gs"
      "\<forall>g \<in> set gs. \<exists>s0 s1. cluster_step kmeans delaunay data (clusters pr) (fst g) s0 = (Inr (Some (snd g)), s1)"
    by blast
  from gs(3) few_centroids_step [OF assms(1)] have "gs = []" by (cases gs) auto
  with gs a show "b = \<lparr>longs = [], lats = []\<rparr>" by (simp add: assemble_Nil)
qed

theorem few_centroids_no_boundary_witness:
  "analyze small_kmeans example_delaunay twelve_points 3 0 = (Inr \<lparr>longs = [], lats = []\<rparr>, 4)"
proof -
  have h: "\<forall>s points k r s'. small_kmeans s points k = (Inr (Some r), s') \<longrightarrow> length (centroids r) < 4"
    by (auto simp: small_kmeans_def)
  have f: "features twelve_points =
      [(Fin 0, Fin 0), (Fin 0, Fin 1), (Fin 1, Fin 1), (Fin 1, Fin 0),
       (Fin 10, Fin 10), (Fin 10, Fin 11), (Fin 11, Fin 11), (Fin 11, Fin 10),
       (Fin 0, Fin 20), (Fin 0, Fin 21), (Fin 1, Fin 21), (Fin 1, Fin 20)]"
    by (simp add: features_def twelve_points_def row_at_def Number_def isNaN_def)
  have n: "subClusters (Suc (Suc (Suc (Suc 0)))) = 1"
    using subClusters_values(2) by (simp add: eval_nat_numeral)
  have st: "cluster_step small_kmeans example_delaunay twelve_points [0, 0, 0, 0, Suc 0, Suc 0, Suc 0, Suc 0, 2, 2, 2, 2] 0 s =
      (Inr None, Suc s)"
    "cluster_step small_kmeans example_delaunay twelve_points [0, 0, 0, 0, Suc 0, Suc 0, Suc 0, Suc 0, 2, 2, 2, 2] (Suc 0) s =
      (Inr None, Suc s)"
    "cluster_step small_kmeans example_delaunay twelve_points [0, 0, 0, 0, Suc 0, Suc 0, Suc 0, Suc 0, 2, 2, 2, 2] 2 s =
      (Inr None, Suc s)" for s
    by (simp_all add: cluster_step_def clusterPoints_zip twelve_points_def n small_kmeans_def
        secondary_boundary_def)
  have u: "uniqueClusters [0, 0, 0, 0, Suc 0, Suc 0, Suc 0, Suc 0, 2, 2, 2, 2] = [0, Suc 0, 2]"
    by (simp add: uniqueClusters_Cons uniqueClusters_Nil)
  have "\<exists>b. analyze small_kmeans example_delaunay twelve_points 3 0 = (Inr b, 4)"
    by (simp add: analyze_def f secondary_pass_def small_kmeans_def u st assemble_Nil)
  then obtain b where a: "analyze small_kmeans example_delaunay twelve_points 3 0 = (Inr b, 4)" ..
  from few_centroids_no_boundary [OF h a] a show ?thesis by simp
qed


end
